theory Spec2Isabelle
  imports Main "HOL-Library.Word" "HOL-Library.Signed_Division"
begin

section \<open>Common types\<close>

type_synonym bytes = "8 word list"
type_synonym u64 = "64 word"

section \<open>Errors and outcomes\<close>

text \<open>
  Go errors as values. \<open>Wrap e msg\<close> is \<^verbatim>\<open>errors.Wrap(e, msg)\<close>, \<open>ErrNew msg\<close> is
  \<^verbatim>\<open>errors.New(msg)\<close>, \<open>ErrNotFound\<close> is \<^verbatim>\<open>store.ErrNotFound\<close>, and \<open>ErrExternal\<close>
  stands for any error produced by a collaborator (codec, store, curve library, pub/sub).
\<close>

datatype error = ErrNotFound | ErrNew string | ErrExternal string | Wrap error string

text \<open>\<^verbatim>\<open>errors.Is(err, store.ErrNotFound)\<close>: walks the chain of wrapped errors.\<close>

fun isNotFound :: "error \<Rightarrow> bool" where
  "isNotFound ErrNotFound = True"
| "isNotFound (Wrap e msg) = isNotFound e"
| "isNotFound (ErrNew msg) = False"
| "isNotFound (ErrExternal msg) = False"

text \<open>
  What a handler invocation ends with: it returns an error value (\<open>None\<close> is Go's
  \<^verbatim>\<open>nil\<close>), or it panics (an index out of range).
\<close>

datatype outcome = Returned "error option" | Panicked

section \<open>Protocol messages\<close>

record inclusion_commitment =
  TypeUrl :: string
  Data :: bytes
  Commitment :: bytes

record inclusion_aggregate_proof =
  InclusionCommitments :: "inclusion_commitment list"
  Proof :: bytes

record clock_frame =
  Filter :: bytes
  FrameNumber :: u64
  ParentSelector :: bytes
  Input :: bytes
  Output :: bytes
  AggregateProofs :: "inclusion_aggregate_proof list"

record clock_frames_request =
  RequestFilter :: bytes
  FromFrameNumber :: u64
  ToFrameNumber :: u64

record clock_frames_response =
  ResponseFilter :: bytes
  ResponseFromFrameNumber :: u64
  ResponseToFrameNumber :: u64
  ClockFrames :: "clock_frame list"

record proving_key_request =
  ProvingKeyBytes :: bytes

record anypb =
  AnyTypeUrl :: string
  AnyValue :: bytes

text \<open>
  What \<^verbatim>\<open>publishMessage\<close> is called with. The proving-key handler passes a
  \<^verbatim>\<open>*protobufs.ProvingKeyAnnouncement\<close>, which may be \<^verbatim>\<open>nil\<close> (\<open>None\<close>); the
  announcement itself is kept as its serialized bytes.
\<close>

datatype message =
    ClockFramesResponseMsg clock_frames_response
  | ClockFrameMsg clock_frame
  | ProvingKeyAnnouncementMsg "bytes option"

section \<open>Prover trie\<close>

text \<open>
  Modelled from the spec: \<^verbatim>\<open>tries.RollingFrecencyCritbitTrie\<close> is not part of the
  source at hand. Section 4.5 describes it as a mapping from a prover identity to
  \<open>(earliest_frame, latest_frame, count)\<close>; \<open>get\<close> answers \<open>count = 0\<close> for an absent
  key and \<open>add\<close> takes the minimum, the maximum and increments the count.
\<close>

type_synonym trie = "bytes \<Rightarrow> (u64 \<times> u64 \<times> u64) option"

definition trieGet :: "trie \<Rightarrow> bytes \<Rightarrow> u64 \<times> u64 \<times> u64" where
  "trieGet t key = (case t key of None \<Rightarrow> (0, 0, 0) | Some v \<Rightarrow> v)"

definition trieAdd :: "trie \<Rightarrow> bytes \<Rightarrow> u64 \<Rightarrow> trie" where
  "trieAdd t key frameNumber =
     t(key \<mapsto> (case t key of
                  None \<Rightarrow> (frameNumber, frameNumber, 1)
                | Some (earliest, latest, count) \<Rightarrow>
                    (min earliest frameNumber, max latest frameNumber, count + 1)))"

section \<open>Engine state and collaborators\<close>

datatype sync_status =
  SyncStatusNotSyncing | SyncStatusAwaitingResponse | SyncStatusSynchronizing

text \<open>
  A candidate row of the clock store, as \<^verbatim>\<open>PutCandidateDataClockFrame\<close> receives it:
  parent selector, distance, selector (each as big-endian bytes) and the frame.
\<close>

type_synonym candidate_row = "bytes \<times> bytes \<times> bytes \<times> clock_frame"

text \<open>
  The fields of \<^verbatim>\<open>CeremonyDataClockConsensusEngine\<close> the handlers read or write,
  together with the observable effects on the collaborators: the candidate rows
  committed to the clock store, the messages published, the topics subscribed, and the
  number of store iterators currently open.
\<close>

record engine =
  filterE :: bytes
  syncingStatus :: sync_status
  syncingTarget :: bytes
  frame :: u64
  latestFrameReceived :: u64
  lastFrameReceivedAt :: nat
  frameProverTrie :: trie
  frameSeenProverTrie :: trie
  candidates :: "candidate_row list"
  published :: "(bytes \<times> message) list"
  subscriptions :: "bytes list"
  openIterators :: nat

text \<open>
  The collaborators the handlers call but the source does not contain, taken as
  parameters. Each fallible call answers \<open>Inl err\<close> or \<open>Some err\<close> for a Go
  \<^verbatim>\<open>err != nil\<close>. \<open>'pt\<close> is a pairing point, \<open>'sc\<close> a pairing scalar.
  A candidate iterator is the list of what \<^verbatim>\<open>iter.Value()\<close> answers at each valid
  position. The store-write and publish calls receive what has been committed or
  published so far, so that their failures may differ from call to call.
\<close>

record ('pt, 'sc) env =
  getPeerID :: bytes
  intrinsicExecutionOutputType :: string
  unmarshalClockFramesResponse :: "anypb \<Rightarrow> error + clock_frames_response"
  unmarshalClockFramesRequest :: "anypb \<Rightarrow> error + clock_frames_request"
  unmarshalProvingKeyRequest :: "anypb \<Rightarrow> error + proving_key_request"
  protoUnmarshalProvingKey :: "bytes \<Rightarrow> error option"
  trieSerialize :: "trie \<Rightarrow> error + bytes"
  trieDeserialize :: "bytes \<Rightarrow> error + trie"
  getAddress :: "clock_frame \<Rightarrow> error + bytes"
  getSelector :: "clock_frame \<Rightarrow> error + nat"
  getParentSelectorAndDistance :: "clock_frame \<Rightarrow> error + (nat \<times> nat \<times> nat)"
  verifyDataClockFrame :: "clock_frame \<Rightarrow> error option"
  fromAffineCompressed :: "bytes \<Rightarrow> error + 'pt"
  shake256Write :: "bytes \<Rightarrow> error option"
  shake256Read :: "bytes \<Rightarrow> nat \<Rightarrow> error + bytes"
  bytesToPolynomial :: "bytes \<Rightarrow> error + 'sc list"
  scalarZero :: "'sc"
  FFT :: "'sc list \<Rightarrow> nat \<Rightarrow> bool \<Rightarrow> error + 'sc list"
  verifyAggregateProof ::
    "'sc list list \<Rightarrow> 'pt list \<Rightarrow> 'pt \<Rightarrow> 'pt \<Rightarrow> error + bool"
  newTransaction :: "candidate_row list \<Rightarrow> error option"
  putCandidateDataClockFrame :: "candidate_row list \<Rightarrow> candidate_row \<Rightarrow> error option"
  commit :: "candidate_row list \<Rightarrow> candidate_row \<Rightarrow> error option"
  timeNow :: "clock_frame \<Rightarrow> nat"
  getDataClockFrame :: "bytes \<Rightarrow> u64 \<Rightarrow> error + clock_frame"
  rangeCandidateDataClockFrames ::
    "bytes \<Rightarrow> bytes \<Rightarrow> u64 \<Rightarrow> error + (error + clock_frame) list"
  getProvingKey :: "bytes \<Rightarrow> error + inclusion_commitment"
  getStagedProvingKey :: "bytes \<Rightarrow> error + bytes"
  publishMessageErr :: "(bytes \<times> message) list \<Rightarrow> bytes \<Rightarrow> message \<Rightarrow> error option"

text \<open>
  \<^verbatim>\<open>e.publishMessage(topic, msg)\<close>: on success the message is on the topic; on failure
  nothing is published and the error is handed back.
\<close>

definition publishMessage ::
  "('pt, 'sc) env \<Rightarrow> engine \<Rightarrow> bytes \<Rightarrow> message \<Rightarrow> error option \<times> engine" where
  "publishMessage env e topic msg =
     (case publishMessageErr env (published e) topic msg of
        Some err \<Rightarrow> (Some err, e)
      | None \<Rightarrow> (None, e\<lparr>published := published e @ [(topic, msg)]\<rparr>))"

text \<open>\<^verbatim>\<open>e.pubSub.Subscribe(topic, e.handleSync, true)\<close>.\<close>

definition subscribe :: "engine \<Rightarrow> bytes \<Rightarrow> engine" where
  "subscribe e topic = e\<lparr>subscriptions := subscriptions e @ [topic]\<rparr>"

section \<open>Frame verification\<close>

text \<open>
  The aggregate commitments of a frame: \<^verbatim>\<open>(len(frame.Input)-516)/74\<close> points, the
  \<open>i\<close>-th decoded from \<^verbatim>\<open>frame.Input[516+(i*74) : 516+(i*74)+74]\<close>. Go's \<^verbatim>\<open>int\<close>
  division truncates towards zero, so an input shorter than 516 bytes gives a count that
  is zero or negative and the loop body never runs.
\<close>

definition aggregateCommitmentCount :: "bytes \<Rightarrow> int" where
  "aggregateCommitmentCount inp = (int (length inp) - 516) sdiv 74"

definition slice :: "'a list \<Rightarrow> nat \<Rightarrow> nat \<Rightarrow> 'a list" where
  "slice xs lo hi = take (hi - lo) (drop lo xs)"

fun parseAggregateCommitments ::
  "('pt, 'sc) env \<Rightarrow> bytes \<Rightarrow> 'pt list \<Rightarrow> nat list \<Rightarrow> error + 'pt list" where
  "parseAggregateCommitments env inp aggregateCommitments [] = Inr aggregateCommitments"
| "parseAggregateCommitments env inp aggregateCommitments (i # rest) =
     (case fromAffineCompressed env (slice inp (516 + i * 74) (516 + i * 74 + 74)) of
        Inl err \<Rightarrow> Inl (Wrap err ''handle clock frame response'')
      | Inr c \<Rightarrow> parseAggregateCommitments env inp (aggregateCommitments @ [c]) rest)"

text \<open>
  \<^verbatim>\<open>expand := make([]byte, 1024); digest.Read(expand)\<close>: the buffer has the length it
  was made with, whatever the reader delivers.
\<close>

definition readInto :: "nat \<Rightarrow> bytes \<Rightarrow> bytes" where
  "readInto n delivered = take n delivered @ replicate (n - length delivered) 0"

text \<open>
  \<^verbatim>\<open>for i := 0; i < 128-len(poly); i++ { poly = append(poly, zero) }\<close>. The bound is
  evaluated before every round, with the length \<^verbatim>\<open>poly\<close> has by then.
\<close>

function padPoly :: "'sc \<Rightarrow> int \<Rightarrow> 'sc list \<Rightarrow> 'sc list" where
  "padPoly zero i poly =
     (if i < 128 - int (length poly) then padPoly zero (i + 1) (poly @ [zero]) else poly)"
  by pat_completeness auto
termination
  by (relation "measure (\<lambda>(zero, i, poly). nat (128 - int (length poly) - i))") auto

declare padPoly.simps [simp del]

text \<open>
  One inclusion commitment: the evaluated polynomial appended to \<^verbatim>\<open>aggregatePoly\<close>
  and the point appended to \<^verbatim>\<open>commitments\<close>.
\<close>

definition processInclusionCommitment ::
  "('pt, 'sc) env \<Rightarrow> inclusion_commitment \<Rightarrow> error + ('sc list \<times> 'pt)" where
  "processInclusionCommitment env commit' =
     (if TypeUrl commit' = intrinsicExecutionOutputType env then
        (case shake256Write env (Data commit') of
           Some err \<Rightarrow> Inl (Wrap err ''handle clock frame response'')
         | None \<Rightarrow>
        (case shake256Read env (Data commit') 1024 of
           Inl err \<Rightarrow> Inl (Wrap err ''handle clock frame response'')
         | Inr delivered \<Rightarrow>
        (case bytesToPolynomial env (readInto 1024 delivered) of
           Inl err \<Rightarrow> Inl (Wrap err ''handle clock frame response'')
         | Inr poly \<Rightarrow>
        (case FFT env poly 16 False of
           Inl err \<Rightarrow> Inl (Wrap err ''handle clock frame response'')
         | Inr evalPoly \<Rightarrow>
        (case fromAffineCompressed env (Commitment commit') of
           Inl err \<Rightarrow> Inl (Wrap err ''handle clock frame data'')
         | Inr c \<Rightarrow> Inr (evalPoly, c))))))
      else
        (case bytesToPolynomial env (Data commit') of
           Inl err \<Rightarrow> Inl (Wrap err ''handle clock frame response'')
         | Inr poly \<Rightarrow>
        (case FFT env (padPoly (scalarZero env) 0 poly) 128 False of
           Inl err \<Rightarrow> Inl (Wrap err ''handle clock frame response'')
         | Inr evalPoly \<Rightarrow>
        (case fromAffineCompressed env (Commitment commit') of
           Inl err \<Rightarrow> Inl (Wrap err ''handle clock frame response'')
         | Inr c \<Rightarrow> Inr (evalPoly, c)))))"

fun processInclusionCommitments ::
  "('pt, 'sc) env \<Rightarrow> 'sc list list \<Rightarrow> 'pt list \<Rightarrow> inclusion_commitment list
   \<Rightarrow> error + ('sc list list \<times> 'pt list)" where
  "processInclusionCommitments env aggregatePoly commitments [] =
     Inr (aggregatePoly, commitments)"
| "processInclusionCommitments env aggregatePoly commitments (commit' # rest) =
     (case processInclusionCommitment env commit' of
        Inl err \<Rightarrow> Inl err
      | Inr (evalPoly, c) \<Rightarrow>
          processInclusionCommitments env (aggregatePoly @ [evalPoly]) (commitments @ [c]) rest)"

text \<open>
  The body of \<^verbatim>\<open>for i, proof := range frame.AggregateProofs\<close>. The argument
  \<^verbatim>\<open>aggregateCommitments[i]\<close> is evaluated after the proof point has been decoded; Go
  panics there when \<open>i\<close> is not below the length of the slice.
\<close>

definition verifyAggregateProofAt ::
  "('pt, 'sc) env \<Rightarrow> 'pt list \<Rightarrow> nat \<Rightarrow> inclusion_aggregate_proof \<Rightarrow> outcome" where
  "verifyAggregateProofAt env aggregateCommitments i proof' =
     (case processInclusionCommitments env [] [] (InclusionCommitments proof') of
        Inl err \<Rightarrow> Returned (Some err)
      | Inr (aggregatePoly, commitments) \<Rightarrow>
     (case fromAffineCompressed env (Proof proof') of
        Inl err \<Rightarrow> Returned (Some (Wrap err ''handle clock frame response''))
      | Inr p \<Rightarrow>
          if i < length aggregateCommitments then
            (case verifyAggregateProof env aggregatePoly commitments
                    (aggregateCommitments ! i) p of
               Inl err \<Rightarrow> Returned (Some (Wrap err ''handle clock frame response''))
             | Inr result \<Rightarrow>
                 if \<not> result
                 then Returned (Some (Wrap (ErrNew ''invalid proof'')
                                        ''handle clock frame response''))
                 else Returned None)
          else Panicked))"

fun verifyAggregateProofs ::
  "('pt, 'sc) env \<Rightarrow> 'pt list \<Rightarrow> nat \<Rightarrow> inclusion_aggregate_proof list \<Rightarrow> outcome" where
  "verifyAggregateProofs env aggregateCommitments i [] = Returned None"
| "verifyAggregateProofs env aggregateCommitments i (proof' # rest) =
     (case verifyAggregateProofAt env aggregateCommitments i proof' of
        Returned None \<Rightarrow> verifyAggregateProofs env aggregateCommitments (i + 1) rest
      | Returned (Some err) \<Rightarrow> Returned (Some err)
      | Panicked \<Rightarrow> Panicked)"

text \<open>
  Lines 201 to 360 of the response handler for one frame: the frame's own check, the
  parse of the aggregate commitments, and the check of every aggregate proof.
\<close>

definition verifyFrame :: "('pt, 'sc) env \<Rightarrow> clock_frame \<Rightarrow> outcome" where
  "verifyFrame env fr =
     (case verifyDataClockFrame env fr of
        Some err \<Rightarrow> Returned (Some (Wrap err ''handle clock frame response''))
      | None \<Rightarrow>
     (case parseAggregateCommitments env (Input fr) []
             [0 ..< nat (aggregateCommitmentCount (Input fr))] of
        Inl err \<Rightarrow> Returned (Some err)
      | Inr aggregateCommitments \<Rightarrow>
          verifyAggregateProofs env aggregateCommitments 0 (AggregateProofs fr)))"

section \<open>Clock-frame responses\<close>

text \<open>\<^verbatim>\<open>(*big.Int).Bytes()\<close> of a non-negative integer: big-endian, no leading zero.\<close>

fun bigIntBytes :: "nat \<Rightarrow> bytes" where
  "bigIntBytes n = (if n = 0 then [] else bigIntBytes (n div 256) @ [of_nat (n mod 256)])"

declare bigIntBytes.simps [simp del]

text \<open>
  Lines 370 to 407 for one verified frame: the candidate row is written in a
  transaction of its own, then the receive markers and both tries are updated.

  Modelled from the spec: the clock store and its transactions are not part of the
  source at hand. Section 4.4 makes the transaction the atomicity unit of a single
  candidate insert, so the row is among the committed rows once \<^verbatim>\<open>txn.Commit()\<close> has
  succeeded, and a failing call leaves the committed rows as they were.
\<close>

definition persistFrame ::
  "('pt, 'sc) env \<Rightarrow> engine \<Rightarrow> trie \<Rightarrow> bytes \<Rightarrow> clock_frame \<Rightarrow> outcome \<times> engine \<times> trie" where
  "persistFrame env e trieCopy prover fr =
     (case getParentSelectorAndDistance env fr of
        Inl err \<Rightarrow> (Returned (Some (Wrap err ''handle clock frame data'')), e, trieCopy)
      | Inr (parentSelector, selector, distance) \<Rightarrow>
     (case newTransaction env (candidates e) of
        Some err \<Rightarrow> (Returned (Some (Wrap err ''handle clock frame response'')), e, trieCopy)
      | None \<Rightarrow>
     (let row = (bigIntBytes parentSelector, bigIntBytes distance, bigIntBytes selector, fr)
      in case putCandidateDataClockFrame env (candidates e) row of
        Some err \<Rightarrow> (Returned (Some (Wrap err ''handle clock frame response'')), e, trieCopy)
      | None \<Rightarrow>
     (case commit env (candidates e) row of
        Some err \<Rightarrow> (Returned (Some (Wrap err ''handle clock frame response'')), e, trieCopy)
      | None \<Rightarrow>
          (let e1 = e\<lparr>candidates := candidates e @ [row]\<rparr>;
               e2 = (if frame e1 < FrameNumber fr
                     then e1\<lparr>latestFrameReceived := FrameNumber fr,
                             lastFrameReceivedAt := timeNow env fr\<rparr>
                     else e1)
           in (Returned None,
               e2\<lparr>frameSeenProverTrie :=
                     trieAdd (frameSeenProverTrie e2) prover (FrameNumber fr)\<rparr>,
               trieAdd trieCopy prover (FrameNumber fr)))))))"

text \<open>The body of \<^verbatim>\<open>for _, frame := range response.ClockFrames\<close> for one frame.\<close>

definition processFrame ::
  "('pt, 'sc) env \<Rightarrow> engine \<Rightarrow> trie \<Rightarrow> clock_frame \<Rightarrow> outcome \<times> engine \<times> trie" where
  "processFrame env e trieCopy fr =
     (case getAddress env fr of
        Inl err \<Rightarrow> (Returned (Some (Wrap err ''handle clock frames response'')), e, trieCopy)
      | Inr prover \<Rightarrow>
     (case trieGet trieCopy prover of
        (earliestFrame, latestFrame, count) \<Rightarrow>
          if count = 0 \<or> earliestFrame \<ge> FrameNumber fr
          then (Returned (Some (Wrap (ErrNew ''prover not in trie'')
                                  ''handle clock frame response'')), e, trieCopy)
          else (case verifyFrame env fr of
                  Panicked \<Rightarrow> (Panicked, e, trieCopy)
                | Returned (Some err) \<Rightarrow> (Returned (Some err), e, trieCopy)
                | Returned None \<Rightarrow> persistFrame env e trieCopy prover fr)))"

text \<open>The loop over the frames of the response, left at the first return or panic.\<close>

fun processFrames ::
  "('pt, 'sc) env \<Rightarrow> engine \<Rightarrow> trie \<Rightarrow> clock_frame list \<Rightarrow> outcome \<times> engine \<times> trie" where
  "processFrames env e trieCopy [] = (Returned None, e, trieCopy)"
| "processFrames env e trieCopy (fr # rest) =
     (case processFrame env e trieCopy fr of
        (Returned None, e1, trieCopy1) \<Rightarrow> processFrames env e1 trieCopy1 rest
      | (Returned (Some err), e1, trieCopy1) \<Rightarrow> (Returned (Some err), e1, trieCopy1)
      | (Panicked, e1, trieCopy1) \<Rightarrow> (Panicked, e1, trieCopy1))"

text \<open>
  \<^verbatim>\<open>handleClockFramesResponse\<close>. Past the two sender checks the status is set to
  \<^verbatim>\<open>SyncStatusSynchronizing\<close> and the deferred function resets it on every way out,
  a panic included. The snapshot \<^verbatim>\<open>trieCopy\<close> is whatever deserializing the
  serialized \<^verbatim>\<open>frameProverTrie\<close> gives.
\<close>

definition handleClockFramesResponse ::
  "('pt, 'sc) env \<Rightarrow> engine \<Rightarrow> bytes \<Rightarrow> bytes \<Rightarrow> anypb \<Rightarrow> outcome \<times> engine" where
  "handleClockFramesResponse env e peerID address any =
     (if peerID = getPeerID env then (Returned None, e)
      else if peerID \<noteq> syncingTarget e then (Returned None, e)
      else
        (let e1 = e\<lparr>syncingStatus := SyncStatusSynchronizing\<rparr>;
             (out, e2) =
               (case unmarshalClockFramesResponse env any of
                  Inl err \<Rightarrow> (Returned (Some (Wrap err ''handle clock frames response'')), e1)
                | Inr response \<Rightarrow>
               (case trieSerialize env (frameProverTrie e1) of
                  Inl err \<Rightarrow> (Returned (Some (Wrap err ''handle clock frames response'')), e1)
                | Inr trieCopyBytes \<Rightarrow>
               (case trieDeserialize env trieCopyBytes of
                  Inl err \<Rightarrow> (Returned (Some (Wrap err ''handle clock frames response'')), e1)
                | Inr trieCopy \<Rightarrow>
                    (case processFrames env e1 trieCopy (ClockFrames response) of
                       (r, e', trieCopy') \<Rightarrow> (r, e')))))
         in (out, e2\<lparr>syncingStatus := SyncStatusNotSyncing\<rparr>)))"

section \<open>Proving-key requests\<close>

text \<open>
  \<^verbatim>\<open>proto.Unmarshal(b, m)\<close> with \<open>m\<close> a \<^verbatim>\<open>*protobufs.ProvingKeyAnnouncement\<close>. The
  library resets the target message before it decodes into it; with a \<^verbatim>\<open>nil\<close>
  target (\<open>None\<close>) that dereferences the nil pointer and the call panics. With a target
  the codec answers with an error or with success.
\<close>

definition protoUnmarshal :: "('pt, 'sc) env \<Rightarrow> bytes \<Rightarrow> bytes option \<Rightarrow> outcome" where
  "protoUnmarshal env b m =
     (case m of
        None \<Rightarrow> Panicked
      | Some target \<Rightarrow> Returned (protoUnmarshalProvingKey env b))"

text \<open>
  \<^verbatim>\<open>handleProvingKeyRequest\<close>. \<^verbatim>\<open>var provingKey *protobufs.ProvingKeyAnnouncement\<close>
  declares a \<^verbatim>\<open>nil\<close> pointer; the staged lookup is the only assignment to it, and
  every branch after that lookup returns. The branch where the key store finds the key
  hands the pointer, still \<^verbatim>\<open>nil\<close>, to \<^verbatim>\<open>proto.Unmarshal\<close>. The second test of the
  staged branch, \<^verbatim>\<open>else if err != nil\<close>, is reached only with a not-found error.
\<close>

definition handleProvingKeyRequest ::
  "('pt, 'sc) env \<Rightarrow> engine \<Rightarrow> bytes \<Rightarrow> bytes \<Rightarrow> anypb \<Rightarrow> outcome \<times> engine" where
  "handleProvingKeyRequest env e peerID address any =
     (if peerID = getPeerID env then (Returned None, e)
      else case unmarshalProvingKeyRequest env any of
        Inl err \<Rightarrow> (Returned None, e)
      | Inr request \<Rightarrow>
          if length (ProvingKeyBytes request) = 0 then (Returned None, e)
          else
            let e1 = subscribe e (filterE e @ peerID);
                provingKey = (None :: bytes option)
            in case getProvingKey env (ProvingKeyBytes request) of
              Inl err \<Rightarrow>
                if \<not> isNotFound err then (Returned None, e1)
                else (case getStagedProvingKey env (ProvingKeyBytes request) of
                        Inr staged \<Rightarrow> (Returned None, e1)
                      | Inl err2 \<Rightarrow>
                          if \<not> isNotFound err2 then (Returned None, e1)
                          else (Returned None, e1))
            | Inr inclusion \<Rightarrow>
                (case protoUnmarshal env (Data inclusion) provingKey of
                   Panicked \<Rightarrow> (Panicked, e1)
                 | Returned (Some err) \<Rightarrow> (Returned None, e1)
                 | Returned None \<Rightarrow>
                     (case publishMessage env e1 (filterE e1 @ peerID)
                             (ProvingKeyAnnouncementMsg provingKey) of
                        (Some err, e2) \<Rightarrow> (Returned None, e2)
                      | (None, e2) \<Rightarrow> (Returned None, e2))))"

section \<open>Range server: the clamp of the requested upper bound\<close>

text \<open>
  \<^verbatim>\<open>to := request.ToFrameNumber
  if to == 0 || to-request.FromFrameNumber > 32 { to = request.FromFrameNumber + 31 }\<close>
  Both operands are \<^verbatim>\<open>uint64\<close>: subtraction and addition wrap modulo \<open>2 ^ 64\<close>.
\<close>

definition clampTo :: "u64 \<Rightarrow> u64 \<Rightarrow> u64" where
  "clampTo fromFrameNumber toFrameNumber =
     (if toFrameNumber = 0 \<or> toFrameNumber - fromFrameNumber > 32
      then fromFrameNumber + 31 else toFrameNumber)"

section \<open>Range server: the traversal\<close>

text \<open>
  \<^verbatim>\<open>for iter.First(); iter.Valid(); iter.Next() { ... }\<close>: each value is fetched and
  published on \<^verbatim>\<open>e.filter || peerID\<close>; a failing \<^verbatim>\<open>iter.Value()\<close> or a failing publish
  returns from the handler at once.
\<close>

fun iterateCandidates ::
  "('pt, 'sc) env \<Rightarrow> bytes \<Rightarrow> engine \<Rightarrow> clock_frame list \<Rightarrow> (error + clock_frame) list
   \<Rightarrow> error option \<times> engine \<times> clock_frame list" where
  "iterateCandidates env peerID e nextSpan [] = (None, e, nextSpan)"
| "iterateCandidates env peerID e nextSpan (v # rest) =
     (case v of
        Inl err \<Rightarrow> (Some (Wrap err ''handle clock frame request''), e, nextSpan)
      | Inr fr \<Rightarrow>
          (case publishMessage env e (filterE e @ peerID) (ClockFrameMsg fr) of
             (Some err, e1) \<Rightarrow> (Some (Wrap err ''handle clock frame request''), e1, nextSpan)
           | (None, e1) \<Rightarrow> iterateCandidates env peerID e1 (nextSpan @ [fr]) rest))"

text \<open>
  The \<^verbatim>\<open>if noMoreFinalized { ... }\<close> block: open the iterator, walk it, and
  \<^verbatim>\<open>iter.Close()\<close> after the walk. The two returns inside the walk leave the function
  before the close is reached.
\<close>

definition scanCandidates ::
  "('pt, 'sc) env \<Rightarrow> bytes \<Rightarrow> engine \<Rightarrow> clock_frame list \<Rightarrow> clock_frame \<Rightarrow> nat
   \<Rightarrow> error option \<times> engine \<times> clock_frame list" where
  "scanCandidates env peerID e nextSpan s selector =
     (case rangeCandidateDataClockFrames env (Filter s) (bigIntBytes selector)
             (FrameNumber s + 1) of
        Inl err \<Rightarrow> (Some (Wrap err ''handle clock frame request''), e, nextSpan)
      | Inr iter \<Rightarrow>
          (case iterateCandidates env peerID (e\<lparr>openIterators := openIterators e + 1\<rparr>)
                  nextSpan iter of
             (Some err, e1, nextSpan1) \<Rightarrow> (Some err, e1, nextSpan1)
           | (None, e1, nextSpan1) \<Rightarrow>
               (None, e1\<lparr>openIterators := openIterators e1 - 1\<rparr>, nextSpan1)))"

text \<open>
  The \<^verbatim>\<open>if !noMoreFinalized { ... }\<close> block: the finalized frame at
  \<^verbatim>\<open>(s.Filter, s.FrameNumber+1)\<close> is published and appended to the next span; a
  not-found answer sets \<^verbatim>\<open>noMoreFinalized\<close>; any other error returns.
\<close>

definition scanFinalized ::
  "('pt, 'sc) env \<Rightarrow> bytes \<Rightarrow> engine \<Rightarrow> bool \<Rightarrow> clock_frame list \<Rightarrow> clock_frame
   \<Rightarrow> error option \<times> engine \<times> bool \<times> clock_frame list" where
  "scanFinalized env peerID e noMoreFinalized nextSpan s =
     (if \<not> noMoreFinalized then
        (case getDataClockFrame env (Filter s) (FrameNumber s + 1) of
           Inl err \<Rightarrow>
             if isNotFound err then (None, e, True, nextSpan)
             else (Some (Wrap err ''handle clock frame request''), e, noMoreFinalized, nextSpan)
         | Inr fr \<Rightarrow>
             (case publishMessage env e (filterE e @ peerID) (ClockFrameMsg fr) of
                (Some err, e1) \<Rightarrow>
                  (Some (Wrap err ''handle clock frame request''), e1, noMoreFinalized, nextSpan)
              | (None, e1) \<Rightarrow> (None, e1, noMoreFinalized, nextSpan @ [fr])))
      else (None, e, noMoreFinalized, nextSpan))"

text \<open>The body of \<^verbatim>\<open>for _, s := range searchSpan\<close> for one \<open>s\<close>.\<close>

definition scanFrame ::
  "('pt, 'sc) env \<Rightarrow> bytes \<Rightarrow> engine \<Rightarrow> bool \<Rightarrow> clock_frame list \<Rightarrow> clock_frame
   \<Rightarrow> error option \<times> engine \<times> bool \<times> clock_frame list" where
  "scanFrame env peerID e noMoreFinalized nextSpan s =
     (case getSelector env s of
        Inl err \<Rightarrow>
          (Some (Wrap err ''handle clock frame request''), e, noMoreFinalized, nextSpan)
      | Inr selector \<Rightarrow>
          (case scanFinalized env peerID e noMoreFinalized nextSpan s of
             (Some err, e1, noMoreFinalized1, nextSpan1) \<Rightarrow>
               (Some err, e1, noMoreFinalized1, nextSpan1)
           | (None, e1, noMoreFinalized1, nextSpan1) \<Rightarrow>
               if noMoreFinalized1 then
                 (case scanCandidates env peerID e1 nextSpan1 s selector of
                    (r, e2, nextSpan2) \<Rightarrow> (r, e2, noMoreFinalized1, nextSpan2))
               else (None, e1, noMoreFinalized1, nextSpan1)))"

text \<open>\<^verbatim>\<open>for _, s := range searchSpan { ... }\<close>, stopping at the first return.\<close>

fun scanSpan ::
  "('pt, 'sc) env \<Rightarrow> bytes \<Rightarrow> engine \<Rightarrow> bool \<Rightarrow> clock_frame list \<Rightarrow> clock_frame list
   \<Rightarrow> error option \<times> engine \<times> bool \<times> clock_frame list" where
  "scanSpan env peerID e noMoreFinalized nextSpan [] = (None, e, noMoreFinalized, nextSpan)"
| "scanSpan env peerID e noMoreFinalized nextSpan (s # rest) =
     (case scanFrame env peerID e noMoreFinalized nextSpan s of
        (Some err, e1, noMoreFinalized1, nextSpan1) \<Rightarrow>
          (Some err, e1, noMoreFinalized1, nextSpan1)
      | (None, e1, noMoreFinalized1, nextSpan1) \<Rightarrow>
          scanSpan env peerID e1 noMoreFinalized1 nextSpan1 rest)"

text \<open>
  \<^verbatim>\<open>for len(searchSpan) != 0 && from+uint64(currentNumber) <= to { ... }\<close>. The
  counter is a Go \<^verbatim>\<open>int\<close> converted to \<^verbatim>\<open>uint64\<close>; it is kept as the 64-bit
  word the conversion yields. Nothing bounds the number of rounds when the comparison
  never fails, so the loop is a partial function: \<open>None\<close> is a run that never returns.
  The slice \<^verbatim>\<open>set\<close> of the source collects the base frame and every published frame
  but is never read; it is left out.
\<close>

partial_function (option) scanLoop ::
  "('pt, 'sc) env \<Rightarrow> bytes \<Rightarrow> u64 \<Rightarrow> u64 \<Rightarrow> engine \<Rightarrow> bool \<Rightarrow> clock_frame list \<Rightarrow> u64
   \<Rightarrow> (outcome \<times> engine) option" where
  "scanLoop env peerID fromN toN e noMoreFinalized searchSpan currentNumber =
     (if length searchSpan \<noteq> 0 \<and> fromN + currentNumber \<le> toN then
        (case scanSpan env peerID e noMoreFinalized [] searchSpan of
           (Some err, e1, noMoreFinalized1, nextSpan) \<Rightarrow> Some (Returned (Some err), e1)
         | (None, e1, noMoreFinalized1, nextSpan) \<Rightarrow>
             scanLoop env peerID fromN toN e1 noMoreFinalized1 nextSpan (currentNumber + 1))
      else Some (Returned None, e))"

declare scanLoop.simps [code]

text \<open>\<^verbatim>\<open>handleClockFramesRequest\<close>.\<close>

definition handleClockFramesRequest ::
  "('pt, 'sc) env \<Rightarrow> engine \<Rightarrow> bytes \<Rightarrow> bytes \<Rightarrow> anypb \<Rightarrow> (outcome \<times> engine) option" where
  "handleClockFramesRequest env e peerID address any =
     (if peerID = getPeerID env then Some (Returned None, e)
      else case unmarshalClockFramesRequest env any of
        Inl err \<Rightarrow> Some (Returned (Some (Wrap err ''handle clock frame request'')), e)
      | Inr request \<Rightarrow>
          let e1 = subscribe e (filterE e @ peerID);
              fromN = FromFrameNumber request
          in case getDataClockFrame env (RequestFilter request) fromN of
            Inl err \<Rightarrow>
              if \<not> isNotFound err
              then Some (Returned (Some (Wrap err ''handle clock frame request'')), e1)
              else (case publishMessage env e1 (filterE e1 @ peerID)
                           (ClockFramesResponseMsg
                              \<lparr>ResponseFilter = RequestFilter request,
                               ResponseFromFrameNumber = 0,
                               ResponseToFrameNumber = 0,
                               ClockFrames = []\<rparr>) of
                      (Some err2, e2) \<Rightarrow>
                        Some (Returned (Some (Wrap err2 ''handle clock frame request'')), e2)
                    | (None, e2) \<Rightarrow> Some (Returned None, e2))
          | Inr base \<Rightarrow>
              scanLoop env peerID fromN (clampTo (FromFrameNumber request) (ToFrameNumber request))
                e1 False [base] 1)"

section \<open>Reading the effects of a batch\<close>

text \<open>
  The prover of a frame as the response handler derives it, the trie update one accepted
  frame causes, and the frames held by the committed candidate rows.
\<close>

definition proverOf :: "('pt, 'sc) env \<Rightarrow> clock_frame \<Rightarrow> bytes" where
  "proverOf env fr = (case getAddress env fr of Inl err \<Rightarrow> [] | Inr prover \<Rightarrow> prover)"

definition addSeen :: "('pt, 'sc) env \<Rightarrow> trie \<Rightarrow> clock_frame \<Rightarrow> trie" where
  "addSeen env t fr = trieAdd t (proverOf env fr) (FrameNumber fr)"

definition candidateFrames :: "engine \<Rightarrow> clock_frame list" where
  "candidateFrames e = map (\<lambda>(parentSelector, distance, selector, fr). fr) (candidates e)"

section \<open>Example configurations\<close>

text \<open>
  A node with peer id \<open>[0]\<close> and filter \<open>[1]\<close> that syncs from peer \<open>[9]\<close>; every
  frame has the prover \<open>[7]\<close>, which the prover trie has seen once, at frame 2. All
  collaborators succeed and the clock store is empty.
\<close>

definition exampleTrie :: trie where
  "exampleTrie = [[7] \<mapsto> (2, 2, 1)]"

definition exampleEnv :: "(nat, nat) env" where
  "exampleEnv = \<lparr>getPeerID = [0],
     intrinsicExecutionOutputType = ''IntrinsicExecutionOutput'',
     unmarshalClockFramesResponse = (\<lambda>a. Inl (ErrExternal ''decode'')),
     unmarshalClockFramesRequest = (\<lambda>a. Inl (ErrExternal ''decode'')),
     unmarshalProvingKeyRequest = (\<lambda>a. Inl (ErrExternal ''decode'')),
     protoUnmarshalProvingKey = (\<lambda>b. None),
     trieSerialize = (\<lambda>t. Inr []),
     trieDeserialize = (\<lambda>b. Inr exampleTrie),
     getAddress = (\<lambda>f. Inr [7]),
     getSelector = (\<lambda>f. Inr (unat (FrameNumber f))),
     getParentSelectorAndDistance = (\<lambda>f. Inr (0, 0, 0)),
     verifyDataClockFrame = (\<lambda>f. None),
     fromAffineCompressed = (\<lambda>b. Inr 0),
     shake256Write = (\<lambda>b. None),
     shake256Read = (\<lambda>b n. Inr (replicate n 0)),
     bytesToPolynomial = (\<lambda>b. Inr []),
     scalarZero = 0,
     FFT = (\<lambda>p w i. Inr p),
     verifyAggregateProof = (\<lambda>a c ac p. Inr True),
     newTransaction = (\<lambda>c. None),
     putCandidateDataClockFrame = (\<lambda>c r. None),
     commit = (\<lambda>c r. None),
     timeNow = (\<lambda>f. 0),
     getDataClockFrame = (\<lambda>f n. Inl ErrNotFound),
     rangeCandidateDataClockFrames = (\<lambda>f s n. Inr []),
     getProvingKey = (\<lambda>b. Inl ErrNotFound),
     getStagedProvingKey = (\<lambda>b. Inl ErrNotFound),
     publishMessageErr = (\<lambda>l t m. None)\<rparr>"

definition exampleFrame :: "u64 \<Rightarrow> clock_frame" where
  "exampleFrame n = \<lparr>Filter = [1], FrameNumber = n, ParentSelector = [], Input = [],
     Output = [], AggregateProofs = []\<rparr>"

definition exampleEngine :: engine where
  "exampleEngine = \<lparr>filterE = [1], syncingStatus = SyncStatusNotSyncing, syncingTarget = [9],
     frame = 0, latestFrameReceived = 0, lastFrameReceivedAt = 0,
     frameProverTrie = exampleTrie, frameSeenProverTrie = Map.empty,
     candidates = [], published = [], subscriptions = [], openIterators = 0\<rparr>"

definition exampleAny :: anypb where
  "exampleAny = \<lparr>AnyTypeUrl = [], AnyValue = []\<rparr>"

text \<open>The engine once the frame at height 5 has been accepted during a batch.\<close>

definition afterFirstFrame :: engine where
  "afterFirstFrame = exampleEngine\<lparr>syncingStatus := SyncStatusSynchronizing,
      latestFrameReceived := 5,
      frameSeenProverTrie := trieAdd Map.empty [7] 5,
      candidates := [([], [], [], exampleFrame 5)]\<rparr>"

text \<open>
  A response with the frames at heights 5, 2 and 9: the second is not above the
  prover's earliest frame.
\<close>

definition batchEnv :: "(nat, nat) env" where
  "batchEnv = exampleEnv\<lparr>unmarshalClockFramesResponse :=
     (\<lambda>a. Inr \<lparr>ResponseFilter = [1], ResponseFromFrameNumber = 5, ResponseToFrameNumber = 9,
                ClockFrames = [exampleFrame 5, exampleFrame 2, exampleFrame 9]\<rparr>)\<rparr>"

text \<open>
  A response with the frames at heights 5, 6 and 9, where the self-check of the frame
  at height 6 fails.
\<close>

definition invalidFrameEnv :: "(nat, nat) env" where
  "invalidFrameEnv = exampleEnv\<lparr>unmarshalClockFramesResponse :=
     (\<lambda>a. Inr \<lparr>ResponseFilter = [1], ResponseFromFrameNumber = 5, ResponseToFrameNumber = 9,
                ClockFrames = [exampleFrame 5, exampleFrame 6, exampleFrame 9]\<rparr>),
     verifyDataClockFrame :=
       (\<lambda>f. if FrameNumber f = 6 then Some (ErrExternal ''invalid frame'') else None)\<rparr>"

text \<open>
  A response with one frame whose input is the 516-byte header alone, so that it carries
  no aggregate commitment, and which has one aggregate proof.
\<close>

definition extraProofFrame :: clock_frame where
  "extraProofFrame = \<lparr>Filter = [1], FrameNumber = 5, ParentSelector = [],
     Input = replicate 516 0, Output = [],
     AggregateProofs = [\<lparr>InclusionCommitments = [], Proof = []\<rparr>]\<rparr>"

definition extraProofEnv :: "(nat, nat) env" where
  "extraProofEnv = exampleEnv\<lparr>unmarshalClockFramesResponse :=
     (\<lambda>a. Inr \<lparr>ResponseFilter = [1], ResponseFromFrameNumber = 5, ResponseToFrameNumber = 5,
                ClockFrames = [extraProofFrame]\<rparr>)\<rparr>"

text \<open>
  Scenario S5 of the specification: the store holds finalized frames at the heights 10
  to 15 and no candidates; the request asks for 10 to 14.
\<close>

definition finalizedEnv :: "(nat, nat) env" where
  "finalizedEnv = exampleEnv\<lparr>unmarshalClockFramesRequest :=
       (\<lambda>a. Inr \<lparr>RequestFilter = [1], FromFrameNumber = 10, ToFrameNumber = 14\<rparr>),
     getDataClockFrame :=
       (\<lambda>f n. if f = [1] \<and> 10 \<le> n \<and> n \<le> 15 then Inr (exampleFrame n)
               else Inl ErrNotFound)\<rparr>"

text \<open>
  Only the height 10 is finalized, and the candidate range under that frame holds one
  entry whose value cannot be read.
\<close>

definition brokenIteratorEnv :: "(nat, nat) env" where
  "brokenIteratorEnv = exampleEnv\<lparr>unmarshalClockFramesRequest :=
       (\<lambda>a. Inr \<lparr>RequestFilter = [1], FromFrameNumber = 10, ToFrameNumber = 14\<rparr>),
     getDataClockFrame :=
       (\<lambda>f n. if f = [1] \<and> n = 10 then Inr (exampleFrame n) else Inl ErrNotFound),
     rangeCandidateDataClockFrames :=
       (\<lambda>f s n. if f = [1] \<and> s = [10] \<and> n = 11
                  then Inr [Inl (ErrExternal ''corrupt value'')] else Inr [])\<rparr>"

text \<open>
  Only the height 10 is finalized, and 33 distinct candidates at height 11 extend that
  frame; the request asks for 10 to 11.
\<close>

definition candidateFrame :: "nat \<Rightarrow> clock_frame" where
  "candidateFrame i = \<lparr>Filter = [1], FrameNumber = 11, ParentSelector = [10], Input = [],
     Output = [of_nat i], AggregateProofs = []\<rparr>"

definition fanOutCandidates :: "clock_frame list" where
  "fanOutCandidates = map candidateFrame [0 ..< 33]"

definition fanOutEnv :: "(nat, nat) env" where
  "fanOutEnv = exampleEnv\<lparr>unmarshalClockFramesRequest :=
       (\<lambda>a. Inr \<lparr>RequestFilter = [1], FromFrameNumber = 10, ToFrameNumber = 11\<rparr>),
     getDataClockFrame :=
       (\<lambda>f n. if f = [1] \<and> n = 10 then Inr (exampleFrame n) else Inl ErrNotFound),
     rangeCandidateDataClockFrames :=
       (\<lambda>f s n. if f = [1] \<and> s = [10] \<and> n = 11 then Inr (map Inr fanOutCandidates)
                  else Inr [])\<rparr>"

text \<open>
  A request for the proving key \<open>[3]\<close>, which the key store holds as an inclusion
  commitment.
\<close>

definition keyFoundEnv :: "(nat, nat) env" where
  "keyFoundEnv = exampleEnv\<lparr>unmarshalProvingKeyRequest :=
       (\<lambda>a. Inr \<lparr>ProvingKeyBytes = [3]\<rparr>),
     getProvingKey :=
       (\<lambda>k. if k = [3]
            then Inr \<lparr>TypeUrl = ''ProvingKeyAnnouncement'', Data = [1, 2], Commitment = []\<rparr>
            else Inl ErrNotFound)\<rparr>"

text \<open>
  A backwards request: from 10 to 5, over a store with finalized frames at the heights
  10 to 41.
\<close>

definition backwardsEnv :: "(nat, nat) env" where
  "backwardsEnv = exampleEnv\<lparr>unmarshalClockFramesRequest :=
       (\<lambda>a. Inr \<lparr>RequestFilter = [1], FromFrameNumber = 10, ToFrameNumber = 5\<rparr>),
     getDataClockFrame :=
       (\<lambda>f n. if f = [1] \<and> 10 \<le> n \<and> n \<le> 41 then Inr (exampleFrame n)
               else Inl ErrNotFound)\<rparr>"

text \<open>
  A backwards request whose clamped bound wraps: from \<open>2 ^ 64 - 10\<close> to 100, over a
  store with a finalized frame at every height.
\<close>

definition wrapEnv :: "(nat, nat) env" where
  "wrapEnv = exampleEnv\<lparr>unmarshalClockFramesRequest :=
       (\<lambda>a. Inr \<lparr>RequestFilter = [1], FromFrameNumber = 18446744073709551606,
                  ToFrameNumber = 100\<rparr>),
     getDataClockFrame :=
       (\<lambda>f n. if f = [1] then Inr (exampleFrame n) else Inl ErrNotFound)\<rparr>"

section \<open>Reading the effects of a range request\<close>

text \<open>The number of messages on the wire once the handler has returned.\<close>

definition publishedCount :: "(outcome \<times> engine) option \<Rightarrow> nat option" where
  "publishedCount r = map_option (\<lambda>(out, e). length (published e)) r"

text \<open>No candidate range of the store yields more than one frame.\<close>

definition noFanOut :: "('pt, 'sc) env \<Rightarrow> bool" where
  "noFanOut env = (\<forall>f s n. case rangeCandidateDataClockFrames env f s n of
                      Inl err \<Rightarrow> True | Inr iter \<Rightarrow> length iter \<le> 1)"

text \<open>
  The height of a published frame; the other messages carry none.
\<close>

fun messageHeight :: "bytes \<times> message \<Rightarrow> u64 option" where
  "messageHeight (topic, ClockFrameMsg fr) = Some (FrameNumber fr)"
| "messageHeight (topic, ClockFramesResponseMsg response) = None"
| "messageHeight (topic, ProvingKeyAnnouncementMsg provingKey) = None"

text \<open>
  The store files every frame under its own height: a finalized lookup at height \<open>n\<close>
  and a candidate range at height \<open>n\<close> yield frames whose frame number is \<open>n\<close>.
\<close>

definition storeFilesByHeight :: "('pt, 'sc) env \<Rightarrow> bool" where
  "storeFilesByHeight env =
     ((\<forall>f n. case getDataClockFrame env f n of
                Inl err \<Rightarrow> True | Inr fr \<Rightarrow> FrameNumber fr = n)
      \<and> (\<forall>f s n. case rangeCandidateDataClockFrames env f s n of
                Inl err \<Rightarrow> True
              | Inr iter \<Rightarrow>
                  (\<forall>v \<in> set iter. case v of Inl err \<Rightarrow> True | Inr fr \<Rightarrow> FrameNumber fr = n)))"

text \<open>
  From \<open>e\<close> to \<open>e1\<close> only frames at height \<open>h\<close> were published, and the span grew
  from \<open>ns\<close> to \<open>ns1\<close> by frames at height \<open>h\<close>.
\<close>

definition publishedAt ::
  "u64 \<Rightarrow> engine \<Rightarrow> clock_frame list \<Rightarrow> engine \<Rightarrow> clock_frame list \<Rightarrow> bool" where
  "publishedAt h e ns e1 ns1 =
     (\<exists>new add. published e1 = published e @ new
        \<and> (\<forall>tm \<in> set new. messageHeight tm = Some h)
        \<and> ns1 = ns @ add \<and> (\<forall>fr \<in> set add. FrameNumber fr = h))"

text \<open>
  The frames \<open>chain h, chain (h + 1), \<dots>\<close>, \<open>n\<close> of them; a store that holds the
  frames of \<open>chain\<close> as its finalized frames at every height from \<open>lo\<close> to \<open>hi\<close>, each
  with a selector; and a publisher that never fails.
\<close>

fun chainFrom :: "(u64 \<Rightarrow> clock_frame) \<Rightarrow> u64 \<Rightarrow> nat \<Rightarrow> clock_frame list" where
  "chainFrom chain h 0 = []"
| "chainFrom chain h (Suc n) = chain h # chainFrom chain (h + 1) n"

definition finalizedBetween ::
  "('pt, 'sc) env \<Rightarrow> bytes \<Rightarrow> u64 \<Rightarrow> u64 \<Rightarrow> (u64 \<Rightarrow> clock_frame) \<Rightarrow> bool" where
  "finalizedBetween env flt lo hi chain =
     (\<forall>h. lo \<le> h \<and> h \<le> hi \<longrightarrow>
        getDataClockFrame env flt h = Inr (chain h)
        \<and> Filter (chain h) = flt \<and> FrameNumber (chain h) = h
        \<and> (case getSelector env (chain h) of Inl err \<Rightarrow> False | Inr selector \<Rightarrow> True))"

definition publishSucceeds :: "('pt, 'sc) env \<Rightarrow> bool" where
  "publishSucceeds env = (\<forall>l t m. publishMessageErr env l t m = None)"

section \<open>Properties\<close>

text \<open>The clamp on a backwards request: the difference wraps above 32.\<close>

lemma clamp_backwards:
  assumes "0 < toN" and "toN < fromN" and "unat fromN - unat toN < 2 ^ 64 - 32"
  shows "unat (toN - fromN) = 2 ^ 64 - (unat fromN - unat toN)
         \<and> toN - fromN > 32
         \<and> clampTo fromN toN = fromN + 31"
proof -
  have lt: "unat toN < unat fromN" using assms(2) by (simp add: word_less_nat_alt)
  have bf: "unat fromN < 2 ^ 64" using unsigned_less [of fromN] by simp
  have "unat (toN - fromN) = (unat toN + 2 ^ 64 - unat fromN) mod 2 ^ 64"
    using lt by (simp add: unat_sub_if')
  also have "\<dots> = 2 ^ 64 - (unat fromN - unat toN)"
    using lt bf by simp
  finally have d: "unat (toN - fromN) = 2 ^ 64 - (unat fromN - unat toN)" .
  have "unat (32 :: u64) < unat (toN - fromN)"
    using d assms(3) lt bf by simp
  then have g: "toN - fromN > 32" by (simp add: word_less_nat_alt)
  show ?thesis using d g by (simp add: clampTo_def)
qed

text \<open>
  Where the key store does not find the key, or the request is dropped before the
  lookup, the proving-key handler returns \<^verbatim>\<open>nil\<close>; where it finds the key, the
  handler panics.
\<close>

lemma handleProvingKeyRequest_nil_or_panic:
  "fst (handleProvingKeyRequest env e peerID address any) = Returned None
   \<or> (fst (handleProvingKeyRequest env e peerID address any) = Panicked
       \<and> (\<exists>request inclusion.
             unmarshalProvingKeyRequest env any = Inr request
             \<and> getProvingKey env (ProvingKeyBytes request) = Inr inclusion))"
  by (simp add: handleProvingKeyRequest_def protoUnmarshal_def Let_def
           split: sum.split option.split prod.split)

text \<open>
  C10. The claim has \<open>handleProvingKeyRequest\<close> return \<^verbatim>\<open>nil\<close> on every execution
  path, the path where the key is found included. On that path the source hands the
  \<^verbatim>\<open>nil\<close> pointer \<^verbatim>\<open>provingKey\<close> to \<^verbatim>\<open>proto.Unmarshal\<close>: for a request from peer
  \<open>[5]\<close> for a key the key store holds, the handler panics after it has subscribed the
  peer's topic, and returns nothing.
\<close>

theorem proving_key_found_panics:
  "handleProvingKeyRequest keyFoundEnv exampleEngine [5] [] exampleAny
     = (Panicked, exampleEngine\<lparr>subscriptions := [[1, 5]]\<rparr>)"
  by (simp add: handleProvingKeyRequest_def protoUnmarshal_def keyFoundEnv_def exampleEnv_def
                subscribe_def Let_def)
     (simp add: exampleEngine_def)

subsection \<open>The response batch loop\<close>

lemma processFrame_failure_keeps_state:
  assumes "processFrame env e tc fr = (out, e1, tc1)" and "out \<noteq> Returned None"
  shows "e1 = e \<and> tc1 = tc"
  using assms
  by (auto simp: processFrame_def persistFrame_def Let_def
           split: sum.splits prod.splits if_splits option.splits outcome.splits)

lemma processFrames_append:
  "processFrames env e tc pre = (Returned None, e1, tc1) \<Longrightarrow>
   processFrames env e tc (pre @ rest) = processFrames env e1 tc1 rest"
proof (induction pre arbitrary: e tc)
  case Nil
  then show ?case by simp
next
  case (Cons fr pre)
  then show ?case
    by (auto split: prod.splits outcome.splits option.splits)
qed

lemma processFrame_success_effect:
  assumes "processFrame env e tc fr = (Returned None, e1, tc1)"
  shows "candidateFrames e1 = candidateFrames e @ [fr]
       \<and> frameSeenProverTrie e1 = addSeen env (frameSeenProverTrie e) fr
       \<and> tc1 = addSeen env tc fr
       \<and> frameProverTrie e1 = frameProverTrie e"
  using assms
  by (auto simp: processFrame_def persistFrame_def Let_def candidateFrames_def addSeen_def
                 proverOf_def
           split: sum.splits prod.splits if_splits option.splits outcome.splits)

lemma processFrames_success_effect:
  "processFrames env e tc frames = (Returned None, e1, tc1) \<Longrightarrow>
   candidateFrames e1 = candidateFrames e @ frames
   \<and> frameSeenProverTrie e1 = foldl (addSeen env) (frameSeenProverTrie e) frames
   \<and> tc1 = foldl (addSeen env) tc frames
   \<and> frameProverTrie e1 = frameProverTrie e"
proof (induction frames arbitrary: e tc)
  case Nil
  then show ?case by simp
next
  case (Cons fr frames)
  obtain out e2 tc2 where pf: "processFrame env e tc fr = (out, e2, tc2)"
    by (cases "processFrame env e tc fr") auto
  with Cons.prems have out: "out = Returned None"
    by (auto split: outcome.splits option.splits)
  with pf Cons.prems have rest: "processFrames env e2 tc2 frames = (Returned None, e1, tc1)"
    by simp
  from processFrame_success_effect [OF pf [unfolded out]] Cons.IH [OF rest]
  show ?case by simp
qed

lemma handleClockFramesResponse_loop:
  assumes "peerID \<noteq> getPeerID env" and "peerID = syncingTarget e"
    and "unmarshalClockFramesResponse env any = Inr response"
    and "trieSerialize env (frameProverTrie e) = Inr trieCopyBytes"
    and "trieDeserialize env trieCopyBytes = Inr trieCopy"
    and "processFrames env (e\<lparr>syncingStatus := SyncStatusSynchronizing\<rparr>) trieCopy
           (ClockFrames response) = (out, e1, tc1)"
  shows "handleClockFramesResponse env e peerID address any
           = (out, e1\<lparr>syncingStatus := SyncStatusNotSyncing\<rparr>)"
  using assms by (simp add: handleClockFramesResponse_def)

lemma processFrame_prover_not_in_trie:
  assumes "getAddress env fr = Inr prover"
    and "trieGet tc prover = (earliestFrame, latestFrame, count)"
    and "count = 0 \<or> earliestFrame \<ge> FrameNumber fr"
  shows "processFrame env e tc fr =
           (Returned (Some (Wrap (ErrNew ''prover not in trie'') ''handle clock frame response'')),
            e, tc)"
  using assms by (auto simp: processFrame_def)

lemma processFrame_success_prover:
  assumes "processFrame env e tc fr = (Returned None, e1, tc1)"
    and "getAddress env fr = Inr prover"
    and "trieGet tc prover = (earliestFrame, latestFrame, count)"
  shows "count \<noteq> 0 \<and> earliestFrame < FrameNumber fr"
  using assms by (auto simp: processFrame_def split: if_splits)

lemma example_first_frame_batch:
  "processFrame batchEnv (exampleEngine\<lparr>syncingStatus := SyncStatusSynchronizing\<rparr>)
     exampleTrie (exampleFrame 5) = (Returned None, afterFirstFrame, trieAdd exampleTrie [7] 5)"
  by (simp add: batchEnv_def exampleEnv_def exampleEngine_def exampleFrame_def
       afterFirstFrame_def processFrame_def persistFrame_def verifyFrame_def trieGet_def
       aggregateCommitmentCount_def bigIntBytes.simps Let_def exampleTrie_def)

lemma example_first_frame_invalid:
  "processFrame invalidFrameEnv (exampleEngine\<lparr>syncingStatus := SyncStatusSynchronizing\<rparr>)
     exampleTrie (exampleFrame 5) = (Returned None, afterFirstFrame, trieAdd exampleTrie [7] 5)"
  by (simp add: invalidFrameEnv_def exampleEnv_def exampleEngine_def exampleFrame_def
       afterFirstFrame_def processFrame_def persistFrame_def verifyFrame_def trieGet_def
       aggregateCommitmentCount_def bigIntBytes.simps Let_def exampleTrie_def)

lemma example_snapshot_lookup:
  "trieGet (trieAdd exampleTrie [7] 5) [7] = (2, 5, 2)"
  by (simp add: trieGet_def trieAdd_def exampleTrie_def)

text \<open>
  C1. Let the loop of the response handler reach the frame \<open>fr\<close> of a batch, after the
  frames \<open>pre\<close> before it have been accepted, with the snapshot trie \<open>tc1\<close>, and let the
  lookup of the frame's prover in the snapshot give \<open>(earliestFrame, _, count)\<close>. If
  \<open>fr\<close> is accepted then \<open>count \<noteq> 0\<close> and \<open>earliestFrame < FrameNumber fr\<close>. If
  \<open>count = 0\<close> or \<open>earliestFrame \<ge> FrameNumber fr\<close>, the handler returns the error
  "prover not in trie" and ends in the state reached after \<open>pre\<close>: neither \<open>fr\<close> nor any
  later frame of the batch is processed.
\<close>

theorem response_requires_prover_in_snapshot:
  assumes "peerID \<noteq> getPeerID env" and "peerID = syncingTarget e"
    and "unmarshalClockFramesResponse env any = Inr response"
    and "trieSerialize env (frameProverTrie e) = Inr trieCopyBytes"
    and "trieDeserialize env trieCopyBytes = Inr trieCopy"
    and "ClockFrames response = pre @ fr # post"
    and "processFrames env (e\<lparr>syncingStatus := SyncStatusSynchronizing\<rparr>) trieCopy pre
           = (Returned None, e1, tc1)"
    and "getAddress env fr = Inr prover"
    and "trieGet tc1 prover = (earliestFrame, latestFrame, count)"
  shows "(\<forall>e2 tc2. processFrame env e1 tc1 fr = (Returned None, e2, tc2)
            \<longrightarrow> count \<noteq> 0 \<and> earliestFrame < FrameNumber fr)
       \<and> (count = 0 \<or> earliestFrame \<ge> FrameNumber fr \<longrightarrow>
            handleClockFramesResponse env e peerID address any =
              (Returned (Some (Wrap (ErrNew ''prover not in trie'')
                                 ''handle clock frame response'')),
               e1\<lparr>syncingStatus := SyncStatusNotSyncing\<rparr>))"
proof (intro conjI allI impI)
  fix e2 tc2
  assume "processFrame env e1 tc1 fr = (Returned None, e2, tc2)"
  from processFrame_success_prover [OF this assms(8) assms(9)]
  show "count \<noteq> 0" and "earliestFrame < FrameNumber fr" by simp_all
next
  assume bad: "count = 0 \<or> earliestFrame \<ge> FrameNumber fr"
  have "processFrames env (e\<lparr>syncingStatus := SyncStatusSynchronizing\<rparr>) trieCopy
          (pre @ fr # post) = processFrames env e1 tc1 (fr # post)"
    by (rule processFrames_append [OF assms(7)])
  also have "\<dots> = (Returned (Some (Wrap (ErrNew ''prover not in trie'')
                                 ''handle clock frame response'')), e1, tc1)"
    by (simp add: processFrame_prover_not_in_trie [OF assms(8) assms(9) bad])
  finally show "handleClockFramesResponse env e peerID address any =
              (Returned (Some (Wrap (ErrNew ''prover not in trie'')
                                 ''handle clock frame response'')),
               e1\<lparr>syncingStatus := SyncStatusNotSyncing\<rparr>)"
    using handleClockFramesResponse_loop [OF assms(1-5)] assms(6) by simp
qed

theorem response_requires_prover_in_snapshot_witness:
  "handleClockFramesResponse batchEnv exampleEngine [9] [] exampleAny =
     (Returned (Some (Wrap (ErrNew ''prover not in trie'') ''handle clock frame response'')),
      afterFirstFrame\<lparr>syncingStatus := SyncStatusNotSyncing\<rparr>)
   \<and> processFrame batchEnv (exampleEngine\<lparr>syncingStatus := SyncStatusSynchronizing\<rparr>)
        exampleTrie (exampleFrame 5) = (Returned None, afterFirstFrame, trieAdd exampleTrie [7] 5)
   \<and> (1 :: u64) \<noteq> 0 \<and> (2 :: u64) < FrameNumber (exampleFrame 5)"
proof -
  let ?e = "exampleEngine\<lparr>syncingStatus := SyncStatusSynchronizing\<rparr>"
  let ?resp = "\<lparr>ResponseFilter = [1], ResponseFromFrameNumber = 5, ResponseToFrameNumber = 9,
                ClockFrames = [exampleFrame 5, exampleFrame 2, exampleFrame 9]\<rparr>"
  have h1: "[9] \<noteq> getPeerID batchEnv" by (simp add: batchEnv_def exampleEnv_def)
  have h2: "[9] = syncingTarget exampleEngine" by (simp add: exampleEngine_def)
  have h3: "unmarshalClockFramesResponse batchEnv exampleAny = Inr ?resp"
    by (simp add: batchEnv_def exampleEnv_def)
  have h4: "trieSerialize batchEnv (frameProverTrie exampleEngine) = Inr []"
    by (simp add: batchEnv_def exampleEnv_def)
  have h5: "trieDeserialize batchEnv [] = Inr exampleTrie"
    by (simp add: batchEnv_def exampleEnv_def)
  have adr: "\<And>f. getAddress batchEnv f = Inr [7]" by (simp add: batchEnv_def exampleEnv_def)
  have accepted: "(1 :: u64) \<noteq> 0 \<and> (2 :: u64) < FrameNumber (exampleFrame 5)"
    using response_requires_prover_in_snapshot
      [where env = batchEnv and e = exampleEngine and peerID = "[9]" and any = exampleAny
         and pre = "[]" and fr = "exampleFrame 5" and post = "[exampleFrame 2, exampleFrame 9]"
         and ?e1.0 = ?e and ?tc1.0 = exampleTrie and prover = "[7]"
         and earliestFrame = 2 and latestFrame = 2 and count = 1, OF h1 h2 h3 h4 h5]
      example_first_frame_batch adr
    by (simp add: trieGet_def exampleTrie_def)
  have pre: "processFrames batchEnv ?e exampleTrie [exampleFrame 5]
               = (Returned None, afterFirstFrame, trieAdd exampleTrie [7] 5)"
    by (simp add: example_first_frame_batch)
  have rejected: "handleClockFramesResponse batchEnv exampleEngine [9] [] exampleAny =
     (Returned (Some (Wrap (ErrNew ''prover not in trie'') ''handle clock frame response'')),
      afterFirstFrame\<lparr>syncingStatus := SyncStatusNotSyncing\<rparr>)"
    using response_requires_prover_in_snapshot
      [where address = "[]" and pre = "[exampleFrame 5]" and fr = "exampleFrame 2"
         and post = "[exampleFrame 9]", OF h1 h2 h3 h4 h5 _ pre adr example_snapshot_lookup]
    by (simp add: exampleFrame_def)
  show ?thesis using accepted rejected example_first_frame_batch by simp
qed

text \<open>
  C5. The frames of a batch are handled in array order, the state being threaded from
  one frame to the next. When the frames \<open>pre\<close> at positions \<open>[0, k)\<close> have been
  accepted and the frame \<open>fr\<close> at position \<open>k\<close> fails (with an error or a panic), the
  handler ends with that first failure; the candidate rows then hold exactly the frames
  \<open>pre\<close> behind those stored before, in order; the live trie
  \<^verbatim>\<open>frameSeenProverTrie\<close> has received one \<open>add\<close> per frame of \<open>pre\<close>, in order, and
  none for \<open>fr\<close> or a later frame; \<^verbatim>\<open>frameProverTrie\<close> is untouched.
\<close>

theorem batch_failure_keeps_prefix:
  assumes "peerID \<noteq> getPeerID env" and "peerID = syncingTarget e"
    and "unmarshalClockFramesResponse env any = Inr response"
    and "trieSerialize env (frameProverTrie e) = Inr trieCopyBytes"
    and "trieDeserialize env trieCopyBytes = Inr trieCopy"
    and "ClockFrames response = pre @ fr # post"
    and "processFrames env (e\<lparr>syncingStatus := SyncStatusSynchronizing\<rparr>) trieCopy pre
           = (Returned None, e1, tc1)"
    and "processFrame env e1 tc1 fr = (out, e2, tc2)"
    and "out \<noteq> Returned None"
  shows "handleClockFramesResponse env e peerID address any
           = (out, e1\<lparr>syncingStatus := SyncStatusNotSyncing\<rparr>)
       \<and> candidateFrames e1 = candidateFrames e @ pre
       \<and> frameSeenProverTrie e1 = foldl (addSeen env) (frameSeenProverTrie e) pre
       \<and> frameProverTrie e1 = frameProverTrie e"
proof -
  have same: "e2 = e1 \<and> tc2 = tc1"
    by (rule processFrame_failure_keeps_state [OF assms(8) assms(9)])
  have "processFrames env (e\<lparr>syncingStatus := SyncStatusSynchronizing\<rparr>) trieCopy
          (pre @ fr # post) = processFrames env e1 tc1 (fr # post)"
    by (rule processFrames_append [OF assms(7)])
  also have "\<dots> = (out, e1, tc1)"
    using assms(8) assms(9) same by (cases out) (auto split: option.splits)
  finally have "handleClockFramesResponse env e peerID address any
           = (out, e1\<lparr>syncingStatus := SyncStatusNotSyncing\<rparr>)"
    using handleClockFramesResponse_loop [OF assms(1-5)] assms(6) by simp
  moreover from processFrames_success_effect [OF assms(7)]
  have "candidateFrames e1 = candidateFrames e @ pre
       \<and> frameSeenProverTrie e1 = foldl (addSeen env) (frameSeenProverTrie e) pre
       \<and> frameProverTrie e1 = frameProverTrie e"
    by (simp add: candidateFrames_def)
  ultimately show ?thesis by simp
qed

theorem batch_failure_keeps_prefix_witness:
  "handleClockFramesResponse invalidFrameEnv exampleEngine [9] [] exampleAny
     = (Returned (Some (Wrap (ErrExternal ''invalid frame'') ''handle clock frame response'')),
        afterFirstFrame\<lparr>syncingStatus := SyncStatusNotSyncing\<rparr>)
   \<and> candidateFrames afterFirstFrame = [exampleFrame 5]
   \<and> frameSeenProverTrie afterFirstFrame = trieAdd Map.empty [7] 5
   \<and> frameProverTrie afterFirstFrame = exampleTrie"
proof -
  let ?e = "exampleEngine\<lparr>syncingStatus := SyncStatusSynchronizing\<rparr>"
  let ?resp = "\<lparr>ResponseFilter = [1], ResponseFromFrameNumber = 5, ResponseToFrameNumber = 9,
                ClockFrames = [exampleFrame 5, exampleFrame 6, exampleFrame 9]\<rparr>"
  let ?err = "Returned (Some (Wrap (ErrExternal ''invalid frame'')
                                ''handle clock frame response''))"
  have h1: "[9] \<noteq> getPeerID invalidFrameEnv" by (simp add: invalidFrameEnv_def exampleEnv_def)
  have h2: "[9] = syncingTarget exampleEngine" by (simp add: exampleEngine_def)
  have h3: "unmarshalClockFramesResponse invalidFrameEnv exampleAny = Inr ?resp"
    by (simp add: invalidFrameEnv_def exampleEnv_def)
  have h4: "trieSerialize invalidFrameEnv (frameProverTrie exampleEngine) = Inr []"
    by (simp add: invalidFrameEnv_def exampleEnv_def)
  have h5: "trieDeserialize invalidFrameEnv [] = Inr exampleTrie"
    by (simp add: invalidFrameEnv_def exampleEnv_def)
  have h6: "ClockFrames ?resp = [exampleFrame 5] @ exampleFrame 6 # [exampleFrame 9]" by simp
  have h7: "processFrames invalidFrameEnv ?e exampleTrie [exampleFrame 5]
               = (Returned None, afterFirstFrame, trieAdd exampleTrie [7] 5)"
    by (simp add: example_first_frame_invalid)
  have h8: "processFrame invalidFrameEnv afterFirstFrame (trieAdd exampleTrie [7] 5)
              (exampleFrame 6) = (?err, afterFirstFrame, trieAdd exampleTrie [7] 5)"
    by (simp add: processFrame_def verifyFrame_def invalidFrameEnv_def exampleEnv_def
                  example_snapshot_lookup exampleFrame_def)
  have h9: "?err \<noteq> Returned None" by simp
  show ?thesis
    using batch_failure_keeps_prefix [OF h1 h2 h3 h4 h5 h6 h7 h8 h9, of "[]"]
    by (simp add: candidateFrames_def exampleEngine_def addSeen_def proverOf_def
                  invalidFrameEnv_def exampleEnv_def exampleFrame_def)
qed

text \<open>
  C6. A clock-frames response whose sender is the local peer, or is not the current
  syncing target, is dropped: the handler returns \<^verbatim>\<open>nil\<close> and leaves the engine as it
  was, so no frame is persisted, neither prover trie changes, and the syncing status keeps
  its value.
\<close>

theorem off_target_response_dropped:
  assumes "peerID = getPeerID env \<or> peerID \<noteq> syncingTarget e"
  shows "handleClockFramesResponse env e peerID address any = (Returned None, e)"
  using assms by (auto simp: handleClockFramesResponse_def)

theorem off_target_response_dropped_witness:
  "([4] = getPeerID batchEnv \<or> [4] \<noteq> syncingTarget exampleEngine)
   \<and> handleClockFramesResponse batchEnv exampleEngine [4] [] exampleAny
       = (Returned None, exampleEngine)
   \<and> ([0] = getPeerID batchEnv \<or> [0] \<noteq> syncingTarget exampleEngine)
   \<and> handleClockFramesResponse batchEnv exampleEngine [0] [] exampleAny
       = (Returned None, exampleEngine)"
proof -
  have a: "[4] = getPeerID batchEnv \<or> [4] \<noteq> syncingTarget exampleEngine"
    by (simp add: exampleEngine_def)
  have b: "[0] = getPeerID batchEnv \<or> [0] \<noteq> syncingTarget exampleEngine"
    by (simp add: exampleEngine_def)
  show ?thesis
    using a b off_target_response_dropped [OF a, of "[]" exampleAny]
      off_target_response_dropped [OF b, of "[]" exampleAny] by simp
qed

subsection \<open>The frame verifier\<close>

text \<open>The padding loop in closed form: it stops half way to 128.\<close>

lemma padPoly_general:
  "0 \<le> i \<Longrightarrow>
   padPoly z i poly = poly @ replicate (nat ((128 - int (length poly) - i + 1) div 2)) z"
proof (induction z i poly rule: padPoly.induct)
  case (1 zero i poly)
  show ?case
  proof (cases "i < 128 - int (length poly)")
    case True
    have "padPoly zero i poly = padPoly zero (i + 1) (poly @ [zero])"
      using True by (subst padPoly.simps) simp
    also have "\<dots> = (poly @ [zero]) @
        replicate (nat ((128 - int (length (poly @ [zero])) - (i + 1) + 1) div 2)) zero"
      using "1.IH" [OF True] "1.prems" by simp
    also have "\<dots> = poly @
        replicate (Suc (nat ((128 - int (length (poly @ [zero])) - (i + 1) + 1) div 2))) zero"
      by simp
    also have "Suc (nat ((128 - int (length (poly @ [zero])) - (i + 1) + 1) div 2))
                = nat ((128 - int (length poly) - i + 1) div 2)"
      using True by simp
    finally show ?thesis .
  next
    case False
    then have "padPoly zero i poly = poly" by (subst padPoly.simps) simp
    moreover have "nat ((128 - int (length poly) - i + 1) div 2) = 0" using False by simp
    ultimately show ?thesis by simp
  qed
qed

text \<open>
  C7. For an inclusion commitment whose type is not the intrinsic execution output the
  claim has the polynomial padded with zero scalars up to length 128 before the
  transform at domain size 128. The loop of the source compares its counter with
  \<^verbatim>\<open>128-len(poly)\<close> while \<^verbatim>\<open>poly\<close> grows, so it appends only half of the missing
  scalars: for a commitment whose data gives the empty polynomial, the transform (here
  the identity) receives 64 scalars, not 128.
\<close>

theorem default_commitment_padded_to_64:
  "processInclusionCommitment exampleEnv
     \<lparr>TypeUrl = ''KeyBundleAnnouncement'', Data = [], Commitment = []\<rparr>
   = Inr (replicate 64 0, 0)"
  by (simp add: processInclusionCommitment_def exampleEnv_def padPoly_general)

lemma extraProofFrame_count: "aggregateCommitmentCount (Input extraProofFrame) = 0"
  by (simp add: extraProofFrame_def aggregateCommitmentCount_def signed_divide_int_def)

lemma extraProofFrame_verify: "verifyFrame extraProofEnv extraProofFrame = Panicked"
proof -
  have v: "verifyDataClockFrame extraProofEnv extraProofFrame = None"
    by (simp add: extraProofEnv_def exampleEnv_def)
  have p: "fromAffineCompressed extraProofEnv [] = Inr 0"
    by (simp add: extraProofEnv_def exampleEnv_def)
  have a: "AggregateProofs extraProofFrame = [\<lparr>InclusionCommitments = [], Proof = []\<rparr>]"
    by (simp add: extraProofFrame_def)
  show ?thesis
    by (simp add: verifyFrame_def extraProofFrame_count v a verifyAggregateProofAt_def p)
qed

text \<open>
  C2. The claim has the verifier require as many aggregate proofs as aggregate
  commitments, and reject a frame with more proofs. The source has no such check: for
  the frame with a 516-byte input (no commitment) and one aggregate proof, sent by the
  syncing target, the access \<^verbatim>\<open>aggregateCommitments[0]\<close> is out of range and the
  handler panics instead of returning an error.
\<close>

theorem extra_aggregate_proof_panics:
  "handleClockFramesResponse extraProofEnv exampleEngine [9] [] exampleAny
     = (Panicked, exampleEngine)"
proof -
  let ?e = "exampleEngine\<lparr>syncingStatus := SyncStatusSynchronizing\<rparr>"
  have g: "getAddress extraProofEnv extraProofFrame = Inr [7]"
    by (simp add: extraProofEnv_def exampleEnv_def)
  have t: "trieGet exampleTrie [7] = (2, 2, 1)" by (simp add: trieGet_def exampleTrie_def)
  have n: "FrameNumber extraProofFrame = 5" by (simp add: extraProofFrame_def)
  have pf: "processFrame extraProofEnv ?e exampleTrie extraProofFrame = (Panicked, ?e, exampleTrie)"
    by (simp add: processFrame_def g t n extraProofFrame_verify)
  have h1: "[9] \<noteq> getPeerID extraProofEnv" by (simp add: extraProofEnv_def exampleEnv_def)
  have h2: "[9] = syncingTarget exampleEngine" by (simp add: exampleEngine_def)
  have h3: "unmarshalClockFramesResponse extraProofEnv exampleAny =
     Inr \<lparr>ResponseFilter = [1], ResponseFromFrameNumber = 5, ResponseToFrameNumber = 5,
                ClockFrames = [extraProofFrame]\<rparr>"
    by (simp add: extraProofEnv_def exampleEnv_def)
  have h4: "trieSerialize extraProofEnv (frameProverTrie exampleEngine) = Inr []"
    by (simp add: extraProofEnv_def exampleEnv_def)
  have h5: "trieDeserialize extraProofEnv [] = Inr exampleTrie"
    by (simp add: extraProofEnv_def exampleEnv_def)
  have "handleClockFramesResponse extraProofEnv exampleEngine [9] [] exampleAny
          = (Panicked, ?e\<lparr>syncingStatus := SyncStatusNotSyncing\<rparr>)"
    by (rule handleClockFramesResponse_loop [OF h1 h2 h3 h4 h5]) (simp add: pf)
  then show ?thesis by (simp add: exampleEngine_def)
qed

subsection \<open>The range traversal\<close>

lemma unat_u64_bound: "unat (x :: u64) < 18446744073709551616"
  using unsigned_less [of x] by simp

lemma unat_succ_u64: "unat (x :: u64) < 2 ^ 64 - 1 \<Longrightarrow> unat (x + 1) = unat x + 1"
  by (simp add: unat_word_ariths)

lemma word_diff_zero: "(x :: u64) \<le> T \<Longrightarrow> unat (T - x) = 0 \<Longrightarrow> x = T"
  by (simp add: unat_eq_zero)

lemma word_succ_above: "unat (T :: u64) < 2 ^ 64 - 1 \<Longrightarrow> \<not> (T + 1 \<le> T)"
  by (simp add: word_le_nat_alt unat_succ_u64)

lemma word_diff_step:
  assumes "(x :: u64) \<le> T" and "unat (T - x) = Suc m"
  shows "x + 1 \<le> T \<and> unat (T - (x + 1)) = m"
proof -
  have d: "unat T - unat x = Suc m" using assms by (simp add: unat_sub)
  have "unat x < 2 ^ 64 - 1" using d unat_u64_bound [of T] by simp
  then have s: "unat (x + 1) = unat x + 1" by (rule unat_succ_u64)
  have le: "x + 1 \<le> T" using d s by (simp add: word_le_nat_alt)
  have "unat (T - (x + 1)) = unat T - unat (x + 1)" using le by (rule unat_sub)
  then show ?thesis using le d s by simp
qed

lemma word_levels_bound:
  assumes "unat (T :: u64) < 2 ^ 64 - 1" and "f + 1 \<le> T" and "T - f \<le> 32"
  shows "unat (T - (f + 1)) + 1 \<le> 32"
proof -
  have "T \<noteq> f" using word_succ_above [OF assms(1)] assms(2) by auto
  then have "T - f \<noteq> 0" by simp
  then have one: "1 \<le> T - f" by (simp add: word_le_nat_alt unat_eq_zero Suc_le_eq unat_gt_0)
  have eq: "T - (f + 1) = (T - f) - 1" by simp
  have "unat (T - (f + 1)) = unat (T - f) - 1"
    by (subst eq) (simp add: unat_sub [OF one])
  moreover have "unat (T - f) \<le> 32" using assms(3) by (simp add: word_le_nat_alt)
  moreover have "unat (T - f) \<noteq> 0" using \<open>T - f \<noteq> 0\<close> by (simp add: unat_eq_zero)
  ultimately show ?thesis by simp
qed

lemma clamp_width: "clampTo f t - f \<le> 32"
  by (simp add: clampTo_def not_less)

lemma publishMessage_grows:
  assumes "publishMessage env e topic msg = (r, e1)"
  shows "length (published e1) = length (published e) + (if r = None then 1 else 0)"
proof (cases "publishMessageErr env (published e) topic msg")
  case None
  then have "publishMessage env e topic msg
               = (None, e\<lparr>published := published e @ [(topic, msg)]\<rparr>)"
    by (simp add: publishMessage_def)
  with assms have "r = None" and "e1 = e\<lparr>published := published e @ [(topic, msg)]\<rparr>"
    by simp_all
  then show ?thesis by simp
next
  case (Some err)
  then have "publishMessage env e topic msg = (Some err, e)"
    by (simp add: publishMessage_def)
  with assms have "r = Some err" and "e1 = e" by simp_all
  then show ?thesis by simp
qed

lemma iterateCandidates_grows:
  "iterateCandidates env peerID e ns iter = (r, e1, ns1) \<Longrightarrow>
     length (published e1) \<le> length (published e) + length iter
     \<and> length ns1 \<le> length ns + length iter"
proof (induction iter arbitrary: e ns)
  case Nil
  then show ?case by simp
next
  case (Cons v rest)
  show ?case
  proof (cases v)
    case (Inl err)
    with Cons.prems show ?thesis by simp
  next
    case (Inr fr)
    obtain r0 e0 where p: "publishMessage env e (filterE e @ peerID) (ClockFrameMsg fr) = (r0, e0)"
      by (cases "publishMessage env e (filterE e @ peerID) (ClockFrameMsg fr)") auto
    note g = publishMessage_grows [OF p]
    show ?thesis
    proof (cases r0)
      case None
      with Cons.prems Inr p
      have "iterateCandidates env peerID e0 (ns @ [fr]) rest = (r, e1, ns1)" by simp
      from Cons.IH [OF this] g None show ?thesis by simp
    next
      case (Some err)
      with Cons.prems Inr p g show ?thesis by auto
    qed
  qed
qed

lemma scanCandidates_grows:
  assumes "noFanOut env" and "scanCandidates env peerID e ns s selector = (r, e1, ns1)"
  shows "length (published e1) \<le> length (published e) + 1 \<and> length ns1 \<le> length ns + 1"
proof (cases "rangeCandidateDataClockFrames env (Filter s) (bigIntBytes selector) (FrameNumber s + 1)")
  case (Inl err)
  with assms(2) show ?thesis by (simp add: scanCandidates_def)
next
  case (Inr iter)
  have len: "length iter \<le> 1"
    using assms(1) Inr
    by (auto simp: noFanOut_def split: sum.splits
             dest: spec [where x = "Filter s"])
        
  obtain r0 e0 ns0 where it:
    "iterateCandidates env peerID (e\<lparr>openIterators := openIterators e + 1\<rparr>) ns iter = (r0, e0, ns0)"
    by (cases "iterateCandidates env peerID (e\<lparr>openIterators := openIterators e + 1\<rparr>) ns iter") auto
  from iterateCandidates_grows [OF it] len
  have "length (published e0) \<le> length (published e) + 1 \<and> length ns0 \<le> length ns + 1"
    by simp
  with assms(2) Inr it show ?thesis
    by (auto simp: scanCandidates_def split: option.splits)
qed

lemma scanFinalized_grows:
  assumes "scanFinalized env peerID e nmf ns s = (r, e1, nmf1, ns1)"
  shows "length (published e1) + (if nmf1 \<and> r = None then 1 else 0) \<le> length (published e) + 1
       \<and> length ns1 + (if nmf1 \<and> r = None then 1 else 0) \<le> length ns + 1
       \<and> (nmf \<longrightarrow> nmf1)"
proof (cases nmf)
  case True
  with assms show ?thesis by (simp add: scanFinalized_def)
next
  case False
  show ?thesis
  proof (cases "getDataClockFrame env (Filter s) (FrameNumber s + 1)")
    case (Inl err)
    with assms False show ?thesis by (auto simp: scanFinalized_def split: if_splits)
  next
    case (Inr fr)
    obtain r0 e0 where p: "publishMessage env e (filterE e @ peerID) (ClockFrameMsg fr) = (r0, e0)"
      by (cases "publishMessage env e (filterE e @ peerID) (ClockFrameMsg fr)") auto
    note g = publishMessage_grows [OF p]
    from assms False Inr p g show ?thesis
      by (cases r0) (auto simp: scanFinalized_def)
  qed
qed

lemma scanFrame_grows:
  assumes "noFanOut env" and "scanFrame env peerID e nmf ns s = (r, e1, nmf1, ns1)"
  shows "length (published e1) \<le> length (published e) + 1 \<and> length ns1 \<le> length ns + 1"
proof (cases "getSelector env s")
  case (Inl err)
  with assms(2) show ?thesis by (simp add: scanFrame_def)
next
  case (Inr selector)
  obtain rf ef nmff nsf where f: "scanFinalized env peerID e nmf ns s = (rf, ef, nmff, nsf)"
    by (cases "scanFinalized env peerID e nmf ns s") auto
  note gf = scanFinalized_grows [OF f]
  show ?thesis
  proof (cases "rf = None \<and> nmff")
    case True
    obtain rc ec nsc where c: "scanCandidates env peerID ef nsf s selector = (rc, ec, nsc)"
      by (cases "scanCandidates env peerID ef nsf s selector") auto
    note gc = scanCandidates_grows [OF assms(1) c]
    from assms(2) Inr f True c have "e1 = ec" and "ns1 = nsc"
      by (simp_all add: scanFrame_def)
    with gf gc True show ?thesis by simp
  next
    case False
    with assms(2) Inr f have "e1 = ef" and "ns1 = nsf"
      by (auto simp: scanFrame_def split: option.splits if_splits)
    with gf show ?thesis by (simp split: if_splits)
  qed
qed

lemma scanSpan_grows:
  assumes "noFanOut env" and "length span \<le> 1"
    and "scanSpan env peerID e nmf [] span = (r, e1, nmf1, ns1)"
  shows "length (published e1) \<le> length (published e) + 1 \<and> length ns1 \<le> 1"
proof (cases span)
  case Nil
  with assms(3) show ?thesis by simp
next
  case (Cons s rest)
  with assms(2) have rest: "rest = []" by simp
  obtain r0 e0 nmf0 ns0 where f: "scanFrame env peerID e nmf [] s = (r0, e0, nmf0, ns0)"
    by (cases "scanFrame env peerID e nmf [] s") auto
  from assms(3) Cons rest f have "e1 = e0" and "ns1 = ns0"
    by (auto split: option.splits)
  with scanFrame_grows [OF assms(1) f] show ?thesis by simp
qed

lemma scanLoop_exit:
  "\<not> (length span \<noteq> 0 \<and> fromN + k \<le> toN) \<Longrightarrow>
   scanLoop env peerID fromN toN e nmf span k = Some (Returned None, e)"
  by (subst scanLoop.simps) auto

lemma scanLoop_bounded:
  assumes "noFanOut env" and "unat toN < 2 ^ 64 - 1"
  shows "length span \<le> 1 \<Longrightarrow> fromN + k \<le> toN \<Longrightarrow> unat (toN - (fromN + k)) = n \<Longrightarrow>
         \<exists>out e1. scanLoop env peerID fromN toN e nmf span k = Some (out, e1)
                  \<and> length (published e1) \<le> length (published e) + n + 1"
proof (induction n arbitrary: k e nmf span)
  case 0
  show ?case
  proof (cases "span = []")
    case True
    then show ?thesis by (simp add: scanLoop_exit)
  next
    case False
    obtain r e0 nmf0 ns0 where sp: "scanSpan env peerID e nmf [] span = (r, e0, nmf0, ns0)"
      by (cases "scanSpan env peerID e nmf [] span") auto
    note g = scanSpan_grows [OF assms(1) "0.prems"(1) sp]
    have "fromN + k = toN" using "0.prems" by (simp add: word_diff_zero)
    then have stop: "\<not> (fromN + (k + 1) \<le> toN)"
      using word_succ_above [OF assms(2)] by (simp add: add.assoc [symmetric])
    show ?thesis
    proof (cases r)
      case None
      have "scanLoop env peerID fromN toN e nmf span k
              = scanLoop env peerID fromN toN e0 nmf0 ns0 (k + 1)"
        using False "0.prems"(2) sp None by (subst scanLoop.simps) simp
      also have "\<dots> = Some (Returned None, e0)" using stop by (simp add: scanLoop_exit)
      finally show ?thesis using g by simp
    next
      case (Some err)
      have "scanLoop env peerID fromN toN e nmf span k = Some (Returned (Some err), e0)"
        using False "0.prems"(2) sp Some by (subst scanLoop.simps) simp
      then show ?thesis using g by simp
    qed
  qed
next
  case (Suc m)
  show ?case
  proof (cases "span = []")
    case True
    then show ?thesis by (simp add: scanLoop_exit)
  next
    case False
    obtain r e0 nmf0 ns0 where sp: "scanSpan env peerID e nmf [] span = (r, e0, nmf0, ns0)"
      by (cases "scanSpan env peerID e nmf [] span") auto
    note g = scanSpan_grows [OF assms(1) Suc.prems(1) sp]
    from word_diff_step [OF Suc.prems(2) Suc.prems(3)]
    have nxt: "fromN + (k + 1) \<le> toN" and m: "unat (toN - (fromN + (k + 1))) = m"
      by (simp_all add: add.assoc [symmetric])
    show ?thesis
    proof (cases r)
      case None
      have eq: "scanLoop env peerID fromN toN e nmf span k
              = scanLoop env peerID fromN toN e0 nmf0 ns0 (k + 1)"
        using False Suc.prems(2) sp None by (subst scanLoop.simps) simp
      from g have "length ns0 \<le> 1" by simp
      from Suc.IH [OF this nxt m, of e0 nmf0]
      obtain out e1 where "scanLoop env peerID fromN toN e0 nmf0 ns0 (k + 1) = Some (out, e1)"
        and "length (published e1) \<le> length (published e0) + m + 1" by auto
      with eq g show ?thesis by simp
    next
      case (Some err)
      have "scanLoop env peerID fromN toN e nmf span k = Some (Returned (Some err), e0)"
        using False Suc.prems(2) sp Some by (subst scanLoop.simps) simp
      then show ?thesis using g by simp
    qed
  qed
qed

lemma iterateCandidates_all:
  assumes "\<And>l t m. publishMessageErr env l t m = None"
  shows "iterateCandidates env peerID e ns (map Inr frames)
           = (None, e\<lparr>published := published e @ map (\<lambda>f. (filterE e @ peerID, ClockFrameMsg f)) frames\<rparr>,
              ns @ frames)"
proof (induction frames arbitrary: e ns)
  case Nil
  then show ?case by simp
next
  case (Cons fr frames)
  show ?case by (simp add: publishMessage_def assms Cons.IH)
qed

lemma bigIntBytes_10: "bigIntBytes 10 = [10]"
  by (simp add: bigIntBytes.simps)

lemma exampleFrame_fields:
  "Filter (exampleFrame n) = [1]" "FrameNumber (exampleFrame n) = n"
  by (simp_all add: exampleFrame_def)

text \<open>
  C3, as claimed, fails: with the height 10 finalized and 33 candidates at height 11 under
  it, the request for the heights 10 to 11 makes the handler publish 33 frames.
\<close>

theorem range_fan_out_counterexample:
  "publishedCount (handleClockFramesRequest fanOutEnv exampleEngine [5] [] exampleAny) = Some 33"
proof -
  let ?e1 = "subscribe exampleEngine [1, 5]"
  let ?e2 = "exampleEngine\<lparr>subscriptions := [[1, 5]],
               published := map (\<lambda>f. ([1, 5], ClockFrameMsg f)) fanOutCandidates\<rparr>"
  have ok: "\<And>l t m. publishMessageErr fanOutEnv l t m = None"
    by (simp add: fanOutEnv_def exampleEnv_def)
  have self: "[5] \<noteq> getPeerID fanOutEnv" by (simp add: fanOutEnv_def exampleEnv_def)
  have req: "unmarshalClockFramesRequest fanOutEnv exampleAny
               = Inr \<lparr>RequestFilter = [1], FromFrameNumber = 10, ToFrameNumber = 11\<rparr>"
    by (simp add: fanOutEnv_def exampleEnv_def)
  have base: "getDataClockFrame fanOutEnv [1] 10 = Inr (exampleFrame 10)"
    by (simp add: fanOutEnv_def exampleEnv_def)
  have nf: "getDataClockFrame fanOutEnv [1] 11 = Inl ErrNotFound"
    by (simp add: fanOutEnv_def exampleEnv_def)
  have sel: "getSelector fanOutEnv (exampleFrame 10) = Inr 10"
    by (simp add: fanOutEnv_def exampleEnv_def exampleFrame_fields)
  have rng: "rangeCandidateDataClockFrames fanOutEnv [1] [10] 11 = Inr (map Inr fanOutCandidates)"
    by (simp add: fanOutEnv_def exampleEnv_def)
  have clamp: "clampTo 10 11 = 11" by (simp add: clampTo_def)
  have span: "scanSpan fanOutEnv [5] ?e1 False [] [exampleFrame 10]
                = (None, ?e2, True, fanOutCandidates)"
    by (simp add: scanFrame_def sel scanFinalized_def exampleFrame_fields nf scanCandidates_def
                  bigIntBytes_10 rng iterateCandidates_all [OF ok])
       (simp add: subscribe_def exampleEngine_def)
  have "handleClockFramesRequest fanOutEnv exampleEngine [5] [] exampleAny
          = scanLoop fanOutEnv [5] 10 11 ?e1 False [exampleFrame 10] 1"
    by (simp add: handleClockFramesRequest_def self req base clamp) (simp add: exampleEngine_def)
  also have "\<dots> = scanLoop fanOutEnv [5] 10 11 ?e2 True fanOutCandidates (1 + 1)"
    by (subst scanLoop.simps) (simp add: span del: scanSpan.simps)
  also have "\<dots> = Some (Returned None, ?e2)"
    by (rule scanLoop_exit) simp
  finally show ?thesis by (simp add: publishedCount_def fanOutCandidates_def)
qed

text \<open>Without fan-out every round publishes at most one frame.\<close>

lemma handleClockFramesRequest_count:
  assumes "unmarshalClockFramesRequest env any = Inr request"
    and "getDataClockFrame env (RequestFilter request) (FromFrameNumber request) = Inr base"
    and "unat (clampTo (FromFrameNumber request) (ToFrameNumber request)) < 2 ^ 64 - 1"
    and "noFanOut env"
  shows "\<exists>out e1. handleClockFramesRequest env e peerID address any = Some (out, e1)
                 \<and> length (published e1) \<le> length (published e) + 32"
proof (cases "peerID = getPeerID env")
  case True
  then show ?thesis by (simp add: handleClockFramesRequest_def)
next
  case False
  let ?f = "FromFrameNumber request"
  let ?T = "clampTo ?f (ToFrameNumber request)"
  let ?e = "subscribe e (filterE e @ peerID)"
  have run: "handleClockFramesRequest env e peerID address any
               = scanLoop env peerID ?f ?T ?e False [base] 1"
    using False assms(1) assms(2) by (simp add: handleClockFramesRequest_def Let_def)
  have pub: "published ?e = published e" by (simp add: subscribe_def)
  show ?thesis
  proof (cases "?f + 1 \<le> ?T")
    case True
    have "unat (?T - (?f + 1)) + 1 \<le> 32"
      by (rule word_levels_bound [OF assms(3) True clamp_width])
    moreover from scanLoop_bounded [OF assms(4) assms(3) _ True refl, of "[base]" peerID ?e False]
    obtain out e1 where "scanLoop env peerID ?f ?T ?e False [base] 1 = Some (out, e1)"
      and "length (published e1) \<le> length (published ?e) + unat (?T - (?f + 1)) + 1"
      by auto
    ultimately show ?thesis using run pub by auto
  next
    case False
    then have "scanLoop env peerID ?f ?T ?e False [base] 1 = Some (Returned None, ?e)"
      by (simp add: scanLoop_exit)
    then show ?thesis using run pub by simp
  qed
qed


lemma publishedAt_refl: "published e1 = published e \<Longrightarrow> publishedAt h e ns e1 ns"
  by (simp add: publishedAt_def)

lemma publishedAt_trans:
  assumes "publishedAt h e ns e1 ns1" and "publishedAt h e1 ns1 e2 ns2"
  shows "publishedAt h e ns e2 ns2"
proof -
  from assms(1) obtain new add where a: "published e1 = published e @ new"
    "\<forall>tm \<in> set new. messageHeight tm = Some h" "ns1 = ns @ add"
    "\<forall>fr \<in> set add. FrameNumber fr = h"
    by (auto simp: publishedAt_def)
  from assms(2) obtain new2 add2 where b: "published e2 = published e1 @ new2"
    "\<forall>tm \<in> set new2. messageHeight tm = Some h" "ns2 = ns1 @ add2"
    "\<forall>fr \<in> set add2. FrameNumber fr = h"
    by (auto simp: publishedAt_def)
  have "published e2 = published e @ (new @ new2)" using a(1) b(1) by simp
  moreover have "\<forall>tm \<in> set (new @ new2). messageHeight tm = Some h" using a(2) b(2) by auto
  moreover have "ns2 = ns @ (add @ add2)" using a(3) b(3) by simp
  moreover have "\<forall>fr \<in> set (add @ add2). FrameNumber fr = h" using a(4) b(4) by auto
  ultimately show ?thesis unfolding publishedAt_def by blast
qed

lemma publishMessage_cases:
  assumes "publishMessage env e topic msg = (r, e1)"
  shows "(r = None \<and> published e1 = published e @ [(topic, msg)]) \<or> (r \<noteq> None \<and> e1 = e)"
proof (cases "publishMessageErr env (published e) topic msg")
  case None
  then have "publishMessage env e topic msg
               = (None, e\<lparr>published := published e @ [(topic, msg)]\<rparr>)"
    by (simp add: publishMessage_def)
  with assms have "r = None" and "e1 = e\<lparr>published := published e @ [(topic, msg)]\<rparr>"
    by simp_all
  then show ?thesis by simp
next
  case (Some err)
  then have "publishMessage env e topic msg = (Some err, e)"
    by (simp add: publishMessage_def)
  with assms have "r = Some err" and "e1 = e" by simp_all
  then show ?thesis by simp
qed

lemma publish_frame_at:
  assumes "publishMessage env e topic (ClockFrameMsg fr) = (r, e1)" and "FrameNumber fr = h"
  shows "publishedAt h e ns e1 (if r = None then ns @ [fr] else ns)"
proof -
  from publishMessage_cases [OF assms(1)]
  show ?thesis
  proof
    assume a: "r = None \<and> published e1 = published e @ [(topic, ClockFrameMsg fr)]"
    have "published e1 = published e @ [(topic, ClockFrameMsg fr)]
          \<and> (\<forall>tm \<in> set [(topic, ClockFrameMsg fr)]. messageHeight tm = Some h)
          \<and> ns @ [fr] = ns @ [fr] \<and> (\<forall>f \<in> set [fr]. FrameNumber f = h)"
      using a assms(2) by simp
    then have "publishedAt h e ns e1 (ns @ [fr])" unfolding publishedAt_def by blast
    with a show ?thesis by simp
  next
    assume "r \<noteq> None \<and> e1 = e"
    then show ?thesis by (auto simp: publishedAt_refl)
  qed
qed

lemma iterateCandidates_heights:
  "\<forall>v \<in> set iter. case v of Inl err \<Rightarrow> True | Inr fr \<Rightarrow> FrameNumber fr = h \<Longrightarrow>
   published e0 = published e \<Longrightarrow>
   iterateCandidates env peerID e0 ns iter = (r, e1, ns1) \<Longrightarrow>
   publishedAt h e ns e1 ns1"
proof (induction iter arbitrary: e e0 ns)
  case Nil
  then show ?case by (simp add: publishedAt_refl)
next
  case (Cons v rest)
  show ?case
  proof (cases v)
    case (Inl err)
    with Cons.prems show ?thesis by (simp add: publishedAt_refl)
  next
    case (Inr fr)
    with Cons.prems(1) have fh: "FrameNumber fr = h" by simp
    obtain r0 e2 where p: "publishMessage env e0 (filterE e0 @ peerID) (ClockFrameMsg fr) = (r0, e2)"
      by (cases "publishMessage env e0 (filterE e0 @ peerID) (ClockFrameMsg fr)") auto
    have st0: "publishedAt h e0 ns e2 (if r0 = None then ns @ [fr] else ns)"
      by (rule publish_frame_at [OF p fh])
    have st: "publishedAt h e ns e2 (if r0 = None then ns @ [fr] else ns)"
      using st0 Cons.prems(2) by (simp add: publishedAt_def)
    show ?thesis
    proof (cases r0)
      case None
      with Cons.prems(3) Inr p
      have it: "iterateCandidates env peerID e2 (ns @ [fr]) rest = (r, e1, ns1)" by simp
      have rest: "\<forall>v \<in> set rest. case v of Inl err \<Rightarrow> True | Inr fr \<Rightarrow> FrameNumber fr = h"
        using Cons.prems(1) by simp
      have "publishedAt h e2 (ns @ [fr]) e1 ns1"
        by (rule Cons.IH [OF rest refl it])
      with st None show ?thesis by (auto intro: publishedAt_trans)
    next
      case (Some err)
      with Cons.prems(3) Inr p have "e1 = e2" and "ns1 = ns" by simp_all
      with st Some show ?thesis by simp
    qed
  qed
qed

lemma scanCandidates_heights:
  assumes "storeFilesByHeight env" and "FrameNumber s + 1 = h"
    and "scanCandidates env peerID e ns s selector = (r, e1, ns1)"
  shows "publishedAt h e ns e1 ns1"
proof (cases "rangeCandidateDataClockFrames env (Filter s) (bigIntBytes selector) (FrameNumber s + 1)")
  case (Inl err)
  with assms(3) show ?thesis by (simp add: scanCandidates_def publishedAt_refl)
next
  case (Inr iter)
  have "case rangeCandidateDataClockFrames env (Filter s) (bigIntBytes selector)
               (FrameNumber s + 1) of
          Inl err \<Rightarrow> True
        | Inr iter \<Rightarrow>
            (\<forall>v \<in> set iter. case v of Inl err \<Rightarrow> True
                                | Inr fr \<Rightarrow> FrameNumber fr = FrameNumber s + 1)"
    using assms(1) unfolding storeFilesByHeight_def by blast
  with Inr
  have hs0: "\<forall>v \<in> set iter. case v of Inl err \<Rightarrow> True
                            | Inr fr \<Rightarrow> FrameNumber fr = FrameNumber s + 1"
    by simp
  have hs: "\<forall>v \<in> set iter. case v of Inl err \<Rightarrow> True | Inr fr \<Rightarrow> FrameNumber fr = h"
    using hs0 unfolding assms(2) .
  let ?e0 = "e\<lparr>openIterators := openIterators e + 1\<rparr>"
  obtain r0 e2 ns2 where it: "iterateCandidates env peerID ?e0 ns iter = (r0, e2, ns2)"
    by (cases "iterateCandidates env peerID ?e0 ns iter") auto
  have st: "publishedAt h e ns e2 ns2"
    by (rule iterateCandidates_heights [OF hs _ it]) simp
  show ?thesis
  proof (cases r0)
    case None
    with assms(3) Inr it
    have "e1 = e2\<lparr>openIterators := openIterators e2 - 1\<rparr>" and "ns1 = ns2"
      by (simp_all add: scanCandidates_def)
    with st show ?thesis by (simp add: publishedAt_def)
  next
    case (Some err)
    with assms(3) Inr it have "e1 = e2" and "ns1 = ns2"
      by (simp_all add: scanCandidates_def)
    with st show ?thesis by simp
  qed
qed

lemma scanFinalized_heights:
  assumes "storeFilesByHeight env" and "FrameNumber s + 1 = h"
    and "scanFinalized env peerID e nmf ns s = (r, e1, nmf1, ns1)"
  shows "publishedAt h e ns e1 ns1"
proof (cases nmf)
  case True
  with assms(3) show ?thesis by (simp add: scanFinalized_def publishedAt_refl)
next
  case False
  show ?thesis
  proof (cases "getDataClockFrame env (Filter s) (FrameNumber s + 1)")
    case (Inl err)
    with assms(3) False show ?thesis
      by (auto simp: scanFinalized_def publishedAt_refl split: if_splits)
  next
    case (Inr fr)
    have "case getDataClockFrame env (Filter s) (FrameNumber s + 1) of
            Inl err \<Rightarrow> True | Inr fr \<Rightarrow> FrameNumber fr = FrameNumber s + 1"
      using assms(1) unfolding storeFilesByHeight_def by blast
    with Inr assms(2) have fh: "FrameNumber fr = h" by simp
    obtain r0 e2 where p: "publishMessage env e (filterE e @ peerID) (ClockFrameMsg fr) = (r0, e2)"
      by (cases "publishMessage env e (filterE e @ peerID) (ClockFrameMsg fr)") auto
    note st = publish_frame_at [OF p fh, of ns]
    show ?thesis
    proof (cases r0)
      case None
      with assms(3) False Inr p have "e1 = e2" and "ns1 = ns @ [fr]"
        by (simp_all add: scanFinalized_def)
      with st None show ?thesis by simp
    next
      case (Some err)
      with assms(3) False Inr p have "e1 = e2" and "ns1 = ns"
        by (simp_all add: scanFinalized_def)
      with st Some show ?thesis by simp
    qed
  qed
qed

lemma scanFrame_heights:
  assumes "storeFilesByHeight env" and "FrameNumber s + 1 = h"
    and "scanFrame env peerID e nmf ns s = (r, e1, nmf1, ns1)"
  shows "publishedAt h e ns e1 ns1"
proof (cases "getSelector env s")
  case (Inl err)
  with assms(3) show ?thesis by (simp add: scanFrame_def publishedAt_refl)
next
  case (Inr selector)
  obtain rf ef nmff nsf where f: "scanFinalized env peerID e nmf ns s = (rf, ef, nmff, nsf)"
    by (cases "scanFinalized env peerID e nmf ns s") auto
  note sf = scanFinalized_heights [OF assms(1) assms(2) f]
  show ?thesis
  proof (cases "rf = None \<and> nmff")
    case True
    obtain rc ec nsc where c: "scanCandidates env peerID ef nsf s selector = (rc, ec, nsc)"
      by (cases "scanCandidates env peerID ef nsf s selector") auto
    note sc = scanCandidates_heights [OF assms(1) assms(2) c]
    from assms(3) Inr f True c have "e1 = ec" and "ns1 = nsc"
      by (simp_all add: scanFrame_def)
    with publishedAt_trans [OF sf sc] show ?thesis by simp
  next
    case False
    with assms(3) Inr f have "e1 = ef" and "ns1 = nsf"
      by (auto simp: scanFrame_def split: option.splits if_splits)
    with sf show ?thesis by simp
  qed
qed

lemma scanSpan_heights:
  "storeFilesByHeight env \<Longrightarrow> \<forall>s \<in> set span. FrameNumber s + 1 = h \<Longrightarrow>
   scanSpan env peerID e nmf ns span = (r, e1, nmf1, ns1) \<Longrightarrow>
   publishedAt h e ns e1 ns1"
proof (induction span arbitrary: e nmf ns)
  case Nil
  then show ?case by (simp add: publishedAt_refl)
next
  case (Cons s rest)
  obtain r0 e0 nmf0 ns0 where f: "scanFrame env peerID e nmf ns s = (r0, e0, nmf0, ns0)"
    by (cases "scanFrame env peerID e nmf ns s") auto
  have sh: "FrameNumber s + 1 = h" using Cons.prems(2) by simp
  note st = scanFrame_heights [OF Cons.prems(1) sh f]
  show ?case
  proof (cases r0)
    case None
    with Cons.prems(3) f
    have "scanSpan env peerID e0 nmf0 ns0 rest = (r, e1, nmf1, ns1)" by simp
    moreover have "\<forall>s \<in> set rest. FrameNumber s + 1 = h" using Cons.prems(2) by simp
    ultimately have "publishedAt h e0 ns0 e1 ns1"
      using Cons.IH [OF Cons.prems(1)] by blast
    with st show ?thesis by (rule publishedAt_trans)
  next
    case (Some err)
    with Cons.prems(3) f have "e1 = e0" and "ns1 = ns0" by simp_all
    with st show ?thesis by simp
  qed
qed

lemma unat_plus_of_nat_u64:
  "unat (x :: u64) + j < 2 ^ 64 \<Longrightarrow> unat (x + of_nat j) = unat x + j"
  by (simp add: unat_word_ariths unat_of_nat)

lemma scanLoop_heights:
  assumes cons: "storeFilesByHeight env" and top: "unat toN < 2 ^ 64 - 1"
  shows "fromN + k \<le> toN \<Longrightarrow> unat (toN - (fromN + k)) = n \<Longrightarrow>
         \<forall>s \<in> set span. FrameNumber s + 1 = fromN + k \<Longrightarrow>
         \<exists>out e1 new. scanLoop env peerID fromN toN e nmf span k = Some (out, e1)
            \<and> published e1 = published e @ new
            \<and> (\<forall>tm \<in> set new. \<exists>j \<le> n. messageHeight tm = Some (fromN + k + of_nat j))"
proof (induction n arbitrary: k e nmf span)
  case 0
  show ?case
  proof (cases "span = []")
    case True
    then show ?thesis by (simp add: scanLoop_exit)
  next
    case False
    obtain r e0 nmf0 ns0 where sp: "scanSpan env peerID e nmf [] span = (r, e0, nmf0, ns0)"
      by (cases "scanSpan env peerID e nmf [] span") auto
    from scanSpan_heights [OF cons "0.prems"(3) sp]
    obtain new where pn: "published e0 = published e @ new"
      and hn: "\<forall>tm \<in> set new. messageHeight tm = Some (fromN + k)"
      by (auto simp: publishedAt_def)
    have hn0: "\<forall>tm \<in> set new. \<exists>j \<le> 0. messageHeight tm = Some (fromN + k + of_nat j)"
      using hn by simp
    have "fromN + k = toN" using "0.prems"(1,2) by (simp add: word_diff_zero)
    then have stop: "\<not> (fromN + (k + 1) \<le> toN)"
      using word_succ_above [OF top] by (simp add: add.assoc [symmetric])
    show ?thesis
    proof (cases r)
      case None
      have "scanLoop env peerID fromN toN e nmf span k
              = scanLoop env peerID fromN toN e0 nmf0 ns0 (k + 1)"
        using False "0.prems"(1) sp None by (subst scanLoop.simps) simp
      also have "\<dots> = Some (Returned None, e0)" using stop by (simp add: scanLoop_exit)
      finally show ?thesis using pn hn0 by blast
    next
      case (Some err)
      have "scanLoop env peerID fromN toN e nmf span k = Some (Returned (Some err), e0)"
        using False "0.prems"(1) sp Some by (subst scanLoop.simps) simp
      then show ?thesis using pn hn0 by blast
    qed
  qed
next
  case (Suc m)
  show ?case
  proof (cases "span = []")
    case True
    then show ?thesis by (simp add: scanLoop_exit)
  next
    case False
    obtain r e0 nmf0 ns0 where sp: "scanSpan env peerID e nmf [] span = (r, e0, nmf0, ns0)"
      by (cases "scanSpan env peerID e nmf [] span") auto
    from scanSpan_heights [OF cons Suc.prems(3) sp]
    obtain new where pn: "published e0 = published e @ new"
      and hn: "\<forall>tm \<in> set new. messageHeight tm = Some (fromN + k)"
      and hs: "\<forall>fr \<in> set ns0. FrameNumber fr = fromN + k"
      by (auto simp: publishedAt_def)
    have hn0: "\<forall>tm \<in> set new. \<exists>j \<le> Suc m. messageHeight tm = Some (fromN + k + of_nat j)"
    proof
      fix tm assume "tm \<in> set new"
      with hn have "messageHeight tm = Some (fromN + k + of_nat 0)" by simp
      then show "\<exists>j \<le> Suc m. messageHeight tm = Some (fromN + k + of_nat j)" by blast
    qed
    from word_diff_step [OF Suc.prems(1) Suc.prems(2)]
    have nxt: "fromN + (k + 1) \<le> toN" and m: "unat (toN - (fromN + (k + 1))) = m"
      by (simp_all add: add.assoc [symmetric])
    show ?thesis
    proof (cases r)
      case None
      have eq: "scanLoop env peerID fromN toN e nmf span k
              = scanLoop env peerID fromN toN e0 nmf0 ns0 (k + 1)"
        using False Suc.prems(1) sp None by (subst scanLoop.simps) simp
      have sp1: "\<forall>s \<in> set ns0. FrameNumber s + 1 = fromN + (k + 1)"
        using hs by (simp add: add.assoc)
      from Suc.IH [OF nxt m sp1, of e0 nmf0]
      obtain out e1 new1 where r1: "scanLoop env peerID fromN toN e0 nmf0 ns0 (k + 1) = Some (out, e1)"
        and p1: "published e1 = published e0 @ new1"
        and h1: "\<forall>tm \<in> set new1. \<exists>j \<le> m. messageHeight tm = Some (fromN + (k + 1) + of_nat j)"
        by blast
      have h1': "\<forall>tm \<in> set new1. \<exists>j \<le> Suc m. messageHeight tm = Some (fromN + k + of_nat j)"
      proof
        fix tm assume "tm \<in> set new1"
        with h1 obtain j where "j \<le> m" and "messageHeight tm = Some (fromN + (k + 1) + of_nat j)"
          by blast
        then have "Suc j \<le> Suc m \<and> messageHeight tm = Some (fromN + k + of_nat (Suc j))"
          by (simp add: add.assoc add.commute)
        then show "\<exists>j \<le> Suc m. messageHeight tm = Some (fromN + k + of_nat j)" by blast
      qed
      have "published e1 = published e @ (new @ new1)" using pn p1 by simp
      moreover have "\<forall>tm \<in> set (new @ new1). \<exists>j \<le> Suc m.
                        messageHeight tm = Some (fromN + k + of_nat j)"
        using hn0 h1' by auto
      ultimately show ?thesis using eq r1 by (metis (no_types, lifting))
    next
      case (Some err)
      have "scanLoop env peerID fromN toN e nmf span k = Some (Returned (Some err), e0)"
        using False Suc.prems(1) sp Some by (subst scanLoop.simps) simp
      then show ?thesis using pn hn0 by blast
    qed
  qed
qed

lemma word_levels_eq:
  assumes "unat (T :: u64) < 2 ^ 64 - 1" and "f + 1 \<le> T"
  shows "unat (T - (f + 1)) + 1 = unat (T - f)"
proof -
  have "T \<noteq> f" using word_succ_above [OF assms(1)] assms(2) by auto
  then have nz: "T - f \<noteq> 0" by simp
  then have one: "1 \<le> T - f" by (simp add: word_le_nat_alt unat_eq_zero Suc_le_eq unat_gt_0)
  have eq: "T - (f + 1) = (T - f) - 1" by simp
  have "unat (T - (f + 1)) = unat (T - f) - 1"
    by (subst eq) (simp add: unat_sub [OF one])
  moreover have "unat (T - f) \<noteq> 0" using nz by (simp add: unat_eq_zero)
  ultimately show ?thesis by simp
qed

lemma height_within:
  assumes "unat (T :: u64) < 2 ^ 64 - 1" and "f + 1 \<le> T" and "j \<le> unat (T - (f + 1))"
  shows "(f + 1 + of_nat j) - f \<le> T - f"
proof -
  note lv = word_levels_eq [OF assms(1) assms(2)]
  have b: "unat (T - f) < 2 ^ 64" using unsigned_less [of "T - f"] by simp
  have "(f + 1 + of_nat j) - f = 1 + of_nat j" by simp
  moreover have "unat (1 + of_nat j :: u64) = 1 + j"
    using unat_plus_of_nat_u64 [of 1 j] lv assms(3) b by simp
  ultimately show ?thesis using lv assms(3) by (simp add: word_le_nat_alt)
qed

text \<open>
  C3, amended. For a request whose from-frame resolves to a finalized frame, over a store
  that files every frame under its own height, and with a clamped upper bound \<open>to'\<close>
  below \<open>2 ^ 64 - 1\<close>: \<open>to' - from \<le> 32\<close>; the handler returns; every message it
  publishes is a frame at a height \<open>h\<close> with \<open>h - from \<le> to' - from\<close> (modulo
  \<open>2 ^ 64\<close>), so that the frames above the height \<open>from\<close> lie on at most 32 heights;
  and when no candidate range yields more than one frame, at most 32 frames above the
  height \<open>from\<close> are published. The number of frames on one height is not bounded.
\<close>

theorem range_request_heights_bounded:
  assumes "unmarshalClockFramesRequest env any = Inr request"
    and "getDataClockFrame env (RequestFilter request) (FromFrameNumber request) = Inr base"
    and "unat (clampTo (FromFrameNumber request) (ToFrameNumber request)) < 2 ^ 64 - 1"
    and "storeFilesByHeight env"
  shows "clampTo (FromFrameNumber request) (ToFrameNumber request) - FromFrameNumber request \<le> 32
       \<and> (\<exists>out e1 new.
             handleClockFramesRequest env e peerID address any = Some (out, e1)
             \<and> published e1 = published e @ new
             \<and> (\<forall>tm \<in> set new. \<exists>h. messageHeight tm = Some h
                   \<and> h - FromFrameNumber request
                       \<le> clampTo (FromFrameNumber request) (ToFrameNumber request)
                           - FromFrameNumber request)
             \<and> (noFanOut env \<longrightarrow>
                   length (filter (\<lambda>tm. messageHeight tm \<noteq> Some (FromFrameNumber request)) new)
                     \<le> 32))"
proof -
  let ?f = "FromFrameNumber request"
  let ?T = "clampTo ?f (ToFrameNumber request)"
  let ?e = "subscribe e (filterE e @ peerID)"
  let ?P = "\<lambda>tm. messageHeight tm \<noteq> Some ?f"
  have pub: "published ?e = published e" by (simp add: subscribe_def)
  have main: "\<exists>out e1 new.
             handleClockFramesRequest env e peerID address any = Some (out, e1)
             \<and> published e1 = published e @ new
             \<and> (\<forall>tm \<in> set new. \<exists>h. messageHeight tm = Some h \<and> h - ?f \<le> ?T - ?f)"
  proof (cases "peerID = getPeerID env")
    case True
    then have "handleClockFramesRequest env e peerID address any = Some (Returned None, e)"
      by (simp add: handleClockFramesRequest_def)
    then show ?thesis by simp
  next
    case False
    have run: "handleClockFramesRequest env e peerID address any
                 = scanLoop env peerID ?f ?T ?e False [base] 1"
      using False assms(1) assms(2) by (simp add: handleClockFramesRequest_def Let_def)
    show ?thesis
    proof (cases "?f + 1 \<le> ?T")
      case True
      have "case getDataClockFrame env (RequestFilter request) ?f of
              Inl err \<Rightarrow> True | Inr fr \<Rightarrow> FrameNumber fr = ?f"
        using assms(4) unfolding storeFilesByHeight_def by blast
      with assms(2) have bn: "FrameNumber base = ?f" by simp
      have sp: "\<forall>s \<in> set [base]. FrameNumber s + 1 = ?f + 1" using bn by simp
      from scanLoop_heights [OF assms(4) assms(3) True refl sp, of peerID ?e False]
      obtain out e1 new where r: "scanLoop env peerID ?f ?T ?e False [base] 1 = Some (out, e1)"
        and p: "published e1 = published ?e @ new"
        and h: "\<forall>tm \<in> set new. \<exists>j \<le> unat (?T - (?f + 1)).
                  messageHeight tm = Some (?f + 1 + of_nat j)"
        by blast
      have "\<forall>tm \<in> set new. \<exists>h. messageHeight tm = Some h \<and> h - ?f \<le> ?T - ?f"
      proof
        fix tm assume "tm \<in> set new"
        with h obtain j where j: "j \<le> unat (?T - (?f + 1))"
          and mh: "messageHeight tm = Some (?f + 1 + of_nat j)" by blast
        from height_within [OF assms(3) True j] mh
        show "\<exists>h. messageHeight tm = Some h \<and> h - ?f \<le> ?T - ?f" by blast
      qed
      with run r p pub show ?thesis by (metis (no_types, lifting))
    next
      case False
      then have "scanLoop env peerID ?f ?T ?e False [base] 1 = Some (Returned None, ?e)"
        by (simp add: scanLoop_exit)
      with run have "handleClockFramesRequest env e peerID address any = Some (Returned None, ?e)
           \<and> published ?e = published e @ []
           \<and> (\<forall>tm \<in> set []. \<exists>h. messageHeight tm = Some h \<and> h - ?f \<le> ?T - ?f)"
        using pub by simp
      then show ?thesis by blast
    qed
  qed
  then obtain out e1 new where
    r: "handleClockFramesRequest env e peerID address any = Some (out, e1)"
    and p: "published e1 = published e @ new"
    and h: "\<forall>tm \<in> set new. \<exists>h. messageHeight tm = Some h \<and> h - ?f \<le> ?T - ?f" by blast
  have cnt: "noFanOut env \<longrightarrow> length (filter ?P new) \<le> 32"
  proof
    assume nf: "noFanOut env"
    from handleClockFramesRequest_count [OF assms(1) assms(2) assms(3) nf, of e peerID address]
    have "length (published e1) \<le> length (published e) + 32" using r by simp
    then have "length new \<le> 32" using p by simp
    moreover have "length (filter ?P new) \<le> length new" by (rule length_filter_le)
    ultimately show "length (filter ?P new) \<le> 32" by (rule order_trans [rotated])
  qed
  have "?T - ?f \<le> 32" by (rule clamp_width)
  with r p h cnt show ?thesis by blast
qed

theorem range_request_heights_bounded_witness:
  "unmarshalClockFramesRequest finalizedEnv exampleAny
     = Inr \<lparr>RequestFilter = [1], FromFrameNumber = 10, ToFrameNumber = 14\<rparr>
   \<and> getDataClockFrame finalizedEnv [1] 10 = Inr (exampleFrame 10)
   \<and> unat (clampTo 10 14) < 2 ^ 64 - 1
   \<and> storeFilesByHeight finalizedEnv
   \<and> noFanOut finalizedEnv
   \<and> clampTo 10 14 - 10 \<le> (32 :: u64)
   \<and> (\<exists>out e1 new.
         handleClockFramesRequest finalizedEnv exampleEngine [5] [] exampleAny = Some (out, e1)
         \<and> published e1 = published exampleEngine @ new
         \<and> (\<forall>tm \<in> set new. \<exists>h. messageHeight tm = Some h \<and> h - 10 \<le> clampTo 10 14 - 10)
         \<and> length (filter (\<lambda>tm. messageHeight tm \<noteq> Some 10) new) \<le> 32)
   \<and> unmarshalClockFramesRequest fanOutEnv exampleAny
     = Inr \<lparr>RequestFilter = [1], FromFrameNumber = 10, ToFrameNumber = 11\<rparr>
   \<and> getDataClockFrame fanOutEnv [1] 10 = Inr (exampleFrame 10)
   \<and> unat (clampTo 10 11) < 2 ^ 64 - 1
   \<and> storeFilesByHeight fanOutEnv
   \<and> (\<exists>out e1 new.
         handleClockFramesRequest fanOutEnv exampleEngine [5] [] exampleAny = Some (out, e1)
         \<and> published e1 = published exampleEngine @ new
         \<and> (\<forall>tm \<in> set new. \<exists>h. messageHeight tm = Some h \<and> h - 10 \<le> clampTo 10 11 - 10))"
proof -
  let ?req = "\<lparr>RequestFilter = [1], FromFrameNumber = 10, ToFrameNumber = 14\<rparr>"
  let ?req2 = "\<lparr>RequestFilter = [1], FromFrameNumber = 10, ToFrameNumber = 11\<rparr>"
  have h1: "unmarshalClockFramesRequest finalizedEnv exampleAny = Inr ?req"
    by (simp add: finalizedEnv_def exampleEnv_def)
  have h2: "getDataClockFrame finalizedEnv (RequestFilter ?req) (FromFrameNumber ?req)
              = Inr (exampleFrame 10)"
    by (simp add: finalizedEnv_def exampleEnv_def)
  have h3: "unat (clampTo (FromFrameNumber ?req) (ToFrameNumber ?req)) < 2 ^ 64 - 1"
    by (simp add: clampTo_def)
  have h4: "storeFilesByHeight finalizedEnv"
    by (simp add: storeFilesByHeight_def finalizedEnv_def exampleEnv_def exampleFrame_def)
  have h5: "noFanOut finalizedEnv"
    by (simp add: noFanOut_def finalizedEnv_def exampleEnv_def)
  have g1: "unmarshalClockFramesRequest fanOutEnv exampleAny = Inr ?req2"
    by (simp add: fanOutEnv_def exampleEnv_def)
  have g2: "getDataClockFrame fanOutEnv (RequestFilter ?req2) (FromFrameNumber ?req2)
              = Inr (exampleFrame 10)"
    by (simp add: fanOutEnv_def exampleEnv_def)
  have g3: "unat (clampTo (FromFrameNumber ?req2) (ToFrameNumber ?req2)) < 2 ^ 64 - 1"
    by (simp add: clampTo_def)
  have g4: "storeFilesByHeight fanOutEnv"
    by (auto simp: storeFilesByHeight_def fanOutEnv_def exampleEnv_def exampleFrame_def
                   fanOutCandidates_def candidateFrame_def)
  have first: "clampTo 10 14 - 10 \<le> (32 :: u64)
   \<and> (\<exists>out e1 new.
         handleClockFramesRequest finalizedEnv exampleEngine [5] [] exampleAny = Some (out, e1)
         \<and> published e1 = published exampleEngine @ new
         \<and> (\<forall>tm \<in> set new. \<exists>h. messageHeight tm = Some h \<and> h - 10 \<le> clampTo 10 14 - 10)
         \<and> length (filter (\<lambda>tm. messageHeight tm \<noteq> Some 10) new) \<le> 32)"
    using range_request_heights_bounded [OF h1 h2 h3 h4, of exampleEngine "[5]" "[]"] h5
    by simp
  have "clampTo 10 11 - 10 \<le> (32 :: u64)
   \<and> (\<exists>out e1 new.
         handleClockFramesRequest fanOutEnv exampleEngine [5] [] exampleAny = Some (out, e1)
         \<and> published e1 = published exampleEngine @ new
         \<and> (\<forall>tm \<in> set new. \<exists>h. messageHeight tm = Some h \<and> h - 10 \<le> clampTo 10 11 - 10)
         \<and> (noFanOut fanOutEnv \<longrightarrow>
               length (filter (\<lambda>tm. messageHeight tm \<noteq> Some 10) new) \<le> 32))"
    using range_request_heights_bounded [OF g1 g2 g3 g4, of exampleEngine "[5]" "[]"]
    by simp
  then have second: "\<exists>out e1 new.
         handleClockFramesRequest fanOutEnv exampleEngine [5] [] exampleAny = Some (out, e1)
         \<and> published e1 = published exampleEngine @ new
         \<and> (\<forall>tm \<in> set new. \<exists>h. messageHeight tm = Some h \<and> h - 10 \<le> clampTo 10 11 - 10)"
    by blast
  show ?thesis
    using first second h1 h2 h3 h4 h5 g1 g2 g3 g4 by simp
qed

lemma scanSpan_finalized:
  assumes "publishSucceeds env"
    and "getSelector env s = Inr selector"
    and "getDataClockFrame env (Filter s) (FrameNumber s + 1) = Inr fr"
  shows "scanSpan env peerID e False [] [s]
           = (None, e\<lparr>published := published e @ [(filterE e @ peerID, ClockFrameMsg fr)]\<rparr>,
              False, [fr])"
  using assms
  by (simp add: scanFrame_def scanFinalized_def publishMessage_def publishSucceeds_def)

lemma word_succ_le: "(x :: u64) \<le> T \<Longrightarrow> unat T < 2 ^ 64 - 1 \<Longrightarrow> x \<le> x + 1"
proof -
  assume a: "x \<le> T" and b: "unat T < 2 ^ 64 - 1"
  have "unat x \<le> unat T" using a by (simp add: word_le_nat_alt)
  then have "unat x < 2 ^ 64 - 1" using b by simp
  then have "unat (x + 1) = unat x + 1" by (rule unat_succ_u64)
  then show ?thesis by (simp add: word_le_nat_alt)
qed

lemma scanLoop_finalized:
  assumes pub: "publishSucceeds env" and top: "unat toN < 2 ^ 64 - 1"
  shows "fromN + k \<le> toN \<Longrightarrow> unat (toN - (fromN + k)) = n \<Longrightarrow>
         (\<forall>h. fromN + k \<le> h \<and> h \<le> toN \<longrightarrow>
            getDataClockFrame env flt h = Inr (chain h)
            \<and> Filter (chain h) = flt \<and> FrameNumber (chain h) = h
            \<and> (case getSelector env (chain h) of Inl err \<Rightarrow> False | Inr selector \<Rightarrow> True)) \<Longrightarrow>
         Filter s = flt \<Longrightarrow> FrameNumber s + 1 = fromN + k \<Longrightarrow>
         getSelector env s = Inr selector \<Longrightarrow>
         scanLoop env peerID fromN toN e False [s] k
           = Some (Returned None,
                   e\<lparr>published := published e @
                        map (\<lambda>fr. (filterE e @ peerID, ClockFrameMsg fr))
                            (chainFrom chain (fromN + k) (Suc n))\<rparr>)"
proof (induction n arbitrary: k e s selector)
  case 0
  let ?h = "fromN + k"
  have inr: "?h \<le> ?h \<and> ?h \<le> toN" using "0.prems"(1) by simp
  with "0.prems"(3) have g: "getDataClockFrame env flt ?h = Inr (chain ?h)" by blast
  have sp: "scanSpan env peerID e False [] [s]
           = (None, e\<lparr>published := published e @ [(filterE e @ peerID, ClockFrameMsg (chain ?h))]\<rparr>,
              False, [chain ?h])"
    by (rule scanSpan_finalized [OF pub "0.prems"(6)]) (simp add: "0.prems"(4,5) g)
  have "fromN + k = toN" using "0.prems"(1,2) by (simp add: word_diff_zero)
  then have stop: "\<not> (fromN + (k + 1) \<le> toN)"
    using word_succ_above [OF top] by (simp add: add.assoc [symmetric])
  have "scanLoop env peerID fromN toN e False [s] k
          = scanLoop env peerID fromN toN
              (e\<lparr>published := published e @ [(filterE e @ peerID, ClockFrameMsg (chain ?h))]\<rparr>)
              False [chain ?h] (k + 1)"
    using "0.prems"(1) by (subst scanLoop.simps) (simp add: sp del: scanSpan.simps)
  also have "\<dots> = Some (Returned None,
              e\<lparr>published := published e @ [(filterE e @ peerID, ClockFrameMsg (chain ?h))]\<rparr>)"
    using stop by (simp add: scanLoop_exit)
  finally show ?case by simp
next
  case (Suc m)
  let ?h = "fromN + k"
  let ?e1 = "e\<lparr>published := published e @ [(filterE e @ peerID, ClockFrameMsg (chain ?h))]\<rparr>"
  have inr: "?h \<le> ?h \<and> ?h \<le> toN" using Suc.prems(1) by simp
  with Suc.prems(3) have g: "getDataClockFrame env flt ?h = Inr (chain ?h)"
    and cf: "Filter (chain ?h) = flt" and cn: "FrameNumber (chain ?h) = ?h"
    and cs: "case getSelector env (chain ?h) of Inl err \<Rightarrow> False | Inr selector \<Rightarrow> True"
    by blast+
  from cs obtain sel1 where sel1: "getSelector env (chain ?h) = Inr sel1"
    by (cases "getSelector env (chain ?h)") auto
  have sp: "scanSpan env peerID e False [] [s] = (None, ?e1, False, [chain ?h])"
    by (rule scanSpan_finalized [OF pub Suc.prems(6)]) (simp add: Suc.prems(4,5) g)
  from word_diff_step [OF Suc.prems(1) Suc.prems(2)]
  have nxt: "fromN + (k + 1) \<le> toN" and m: "unat (toN - (fromN + (k + 1))) = m"
    by (simp_all add: add.assoc [symmetric])
  have mono: "?h \<le> ?h + 1" by (rule word_succ_le [OF Suc.prems(1) top])
  have rng: "\<forall>h. fromN + (k + 1) \<le> h \<and> h \<le> toN \<longrightarrow>
            getDataClockFrame env flt h = Inr (chain h)
            \<and> Filter (chain h) = flt \<and> FrameNumber (chain h) = h
            \<and> (case getSelector env (chain h) of Inl err \<Rightarrow> False | Inr selector \<Rightarrow> True)"
  proof (intro allI impI)
    fix h assume a: "fromN + (k + 1) \<le> h \<and> h \<le> toN"
    then have "?h + 1 \<le> h" by (simp add: add.assoc)
    with mono have "?h \<le> h" by (rule order_trans)
    with a Suc.prems(3) show "getDataClockFrame env flt h = Inr (chain h)
            \<and> Filter (chain h) = flt \<and> FrameNumber (chain h) = h
            \<and> (case getSelector env (chain h) of Inl err \<Rightarrow> False | Inr selector \<Rightarrow> True)"
      by blast
  qed
  have step: "FrameNumber (chain ?h) + 1 = fromN + (k + 1)" by (simp add: cn add.assoc)
  have "scanLoop env peerID fromN toN e False [s] k
          = scanLoop env peerID fromN toN ?e1 False [chain ?h] (k + 1)"
    using Suc.prems(1) by (subst scanLoop.simps) (simp add: sp del: scanSpan.simps)
  also have "\<dots> = Some (Returned None,
                   ?e1\<lparr>published := published ?e1 @
                        map (\<lambda>fr. (filterE ?e1 @ peerID, ClockFrameMsg fr))
                            (chainFrom chain (fromN + (k + 1)) (Suc m))\<rparr>)"
    by (rule Suc.IH [OF nxt m rng cf step sel1])
  finally show ?case by (simp add: add.assoc)
qed

text \<open>
  C9, as claimed, fails in its last part: for \<open>from = 2 ^ 64 - 10\<close> and \<open>to = 100\<close>
  the conditions of the claim hold and \<open>to\<close> is reset to \<open>from + 31\<close>, which wraps to
  21; the loop condition \<open>from + 1 \<le> 21\<close> fails at once, and although the store holds a
  finalized frame at every height the handler publishes nothing: the range is left empty.
\<close>

theorem backwards_range_wrap_counterexample:
  "(0 :: u64) < 100 \<and> (100 :: u64) < 18446744073709551606
   \<and> unat (18446744073709551606 :: u64) - unat (100 :: u64) < 2 ^ 64 - 32
   \<and> clampTo 18446744073709551606 100 = 21
   \<and> handleClockFramesRequest wrapEnv exampleEngine [5] [] exampleAny
       = Some (Returned None, exampleEngine\<lparr>subscriptions := [[1, 5]]\<rparr>)"
proof -
  have cl: "clampTo 18446744073709551606 100 = 21" by (simp add: clampTo_def)
  have self: "[5] \<noteq> getPeerID wrapEnv" by (simp add: wrapEnv_def exampleEnv_def)
  have req: "unmarshalClockFramesRequest wrapEnv exampleAny
               = Inr \<lparr>RequestFilter = [1], FromFrameNumber = 18446744073709551606,
                      ToFrameNumber = 100\<rparr>"
    by (simp add: wrapEnv_def exampleEnv_def)
  have base: "getDataClockFrame wrapEnv [1] 18446744073709551606
                = Inr (exampleFrame 18446744073709551606)"
    by (simp add: wrapEnv_def exampleEnv_def)
  have "handleClockFramesRequest wrapEnv exampleEngine [5] [] exampleAny
          = scanLoop wrapEnv [5] 18446744073709551606 21 (subscribe exampleEngine [1, 5]) False
              [exampleFrame 18446744073709551606] 1"
    by (simp add: handleClockFramesRequest_def self req base cl) (simp add: exampleEngine_def)
  also have "\<dots> = Some (Returned None, subscribe exampleEngine [1, 5])"
    by (rule scanLoop_exit) simp
  finally show ?thesis by (simp add: cl subscribe_def exampleEngine_def)
qed

text \<open>
  C9, amended. For a request with \<open>0 < to < from\<close> and \<open>from - to < 2 ^ 64 - 32\<close> the
  difference \<open>to - from\<close> wraps to \<open>2 ^ 64 - (from - to)\<close>, which exceeds 32, and
  \<open>to\<close> is reset to \<open>from + 31\<close>. When \<open>from + 32 < 2 ^ 64\<close> and the request comes
  from another peer, it is then served as the forward range up to \<open>from + 31\<close>: over a
  store that holds, under the filter of the request, a finalized frame with a selector
  at every height from \<open>from\<close> to \<open>from + 31\<close>, and with a publisher that does not
  fail, the handler returns \<^verbatim>\<open>nil\<close> and the last 31 messages it has published on
  \<open>filter || peer_id\<close> are the frames at the heights \<open>from + 1, \<dots>, from + 31\<close>, in
  ascending order.
\<close>

theorem backwards_range_served_forward:
  assumes "0 < toN" and "toN < fromN" and "unat fromN - unat toN < 2 ^ 64 - 32"
    and "unat fromN + 32 < 2 ^ 64"
    and "peerID \<noteq> getPeerID env"
    and "unmarshalClockFramesRequest env any = Inr request"
    and "FromFrameNumber request = fromN" and "ToFrameNumber request = toN"
    and "finalizedBetween env (RequestFilter request) fromN (fromN + 31) chain"
    and "publishSucceeds env"
  shows "unat (toN - fromN) = 2 ^ 64 - (unat fromN - unat toN)
       \<and> toN - fromN > 32 \<and> clampTo fromN toN = fromN + 31
       \<and> (\<exists>e1 pre. handleClockFramesRequest env e peerID address any = Some (Returned None, e1)
              \<and> published e1 = pre @ map (\<lambda>fr. (filterE e @ peerID, ClockFrameMsg fr))
                                         (chainFrom chain (fromN + 1) 31))"
proof -
  let ?flt = "RequestFilter request"
  let ?T = "fromN + 31"
  let ?e = "subscribe e (filterE e @ peerID)"
  note cl = clamp_backwards [OF assms(1-3)]
  have u31: "unat ?T = unat fromN + 31"
    using unat_plus_of_nat_u64 [of fromN 31] assms(4) by simp
  have u1: "unat (fromN + 1) = unat fromN + 1"
    using unat_plus_of_nat_u64 [of fromN 1] assms(4) by simp
  have top: "unat ?T < 2 ^ 64 - 1" using u31 assms(4) by simp
  have le0: "fromN \<le> ?T" using u31 by (simp add: word_le_nat_alt)
  have le1: "fromN + 1 \<le> ?T" using u31 u1 by (simp add: word_le_nat_alt)
  have n30: "unat (?T - (fromN + 1)) = 30"
    using unat_sub [OF le1] u31 u1 by simp
  have fb: "\<forall>h. fromN \<le> h \<and> h \<le> ?T \<longrightarrow>
        getDataClockFrame env ?flt h = Inr (chain h)
        \<and> Filter (chain h) = ?flt \<and> FrameNumber (chain h) = h
        \<and> (case getSelector env (chain h) of Inl err \<Rightarrow> False | Inr selector \<Rightarrow> True)"
    using assms(9) by (simp add: finalizedBetween_def)
  from fb le0 have base: "getDataClockFrame env ?flt fromN = Inr (chain fromN)"
    and bf: "Filter (chain fromN) = ?flt" and bn: "FrameNumber (chain fromN) = fromN"
    and bs: "case getSelector env (chain fromN) of Inl err \<Rightarrow> False | Inr selector \<Rightarrow> True"
    by auto
  from bs obtain sel where sel: "getSelector env (chain fromN) = Inr sel"
    by (cases "getSelector env (chain fromN)") auto
  have mono: "fromN \<le> fromN + 1" using u1 by (simp add: word_le_nat_alt)
  have rng: "\<forall>h. fromN + 1 \<le> h \<and> h \<le> ?T \<longrightarrow>
        getDataClockFrame env ?flt h = Inr (chain h)
        \<and> Filter (chain h) = ?flt \<and> FrameNumber (chain h) = h
        \<and> (case getSelector env (chain h) of Inl err \<Rightarrow> False | Inr selector \<Rightarrow> True)"
    using fb mono by (meson order_trans)
  have run: "handleClockFramesRequest env e peerID address any
               = scanLoop env peerID fromN ?T ?e False [chain fromN] 1"
    using assms(5-8) base cl by (simp add: handleClockFramesRequest_def Let_def)
  have loop: "scanLoop env peerID fromN ?T ?e False [chain fromN] 1
           = Some (Returned None,
                   ?e\<lparr>published := published ?e @
                        map (\<lambda>fr. (filterE ?e @ peerID, ClockFrameMsg fr))
                            (chainFrom chain (fromN + 1) (Suc 30))\<rparr>)"
    by (rule scanLoop_finalized [OF assms(10) top le1 n30 rng bf _ sel]) (simp add: bn)
  have s31: "Suc 30 = 31" by simp
  have pe: "published ?e = published e" and fe: "filterE ?e = filterE e"
    by (simp_all add: subscribe_def)
  let ?frames = "map (\<lambda>fr. (filterE e @ peerID, ClockFrameMsg fr))
                     (chainFrom chain (fromN + 1) 31)"
  have res: "handleClockFramesRequest env e peerID address any
               = Some (Returned None, ?e\<lparr>published := published e @ ?frames\<rparr>)"
    using run loop by (simp add: s31 pe fe)
  have "published (?e\<lparr>published := published e @ ?frames\<rparr>) = published e @ ?frames"
    by simp
  with res cl show ?thesis by blast
qed

theorem backwards_range_served_forward_witness:
  "(0 :: u64) < 5 \<and> (5 :: u64) < 10 \<and> unat (10 :: u64) - unat (5 :: u64) < 2 ^ 64 - 32
   \<and> unat (10 :: u64) + 32 < 2 ^ 64
   \<and> [5] \<noteq> getPeerID backwardsEnv
   \<and> finalizedBetween backwardsEnv [1] 10 41 exampleFrame
   \<and> publishSucceeds backwardsEnv
   \<and> unat ((5 :: u64) - 10) = 2 ^ 64 - (unat (10 :: u64) - unat (5 :: u64))
   \<and> (5 :: u64) - 10 > 32 \<and> clampTo 10 5 = 41
   \<and> (\<exists>e1 pre. handleClockFramesRequest backwardsEnv exampleEngine [5] [] exampleAny
                   = Some (Returned None, e1)
          \<and> published e1 = pre @ map (\<lambda>fr. ([1, 5], ClockFrameMsg fr))
                                     (chainFrom exampleFrame 11 31))"
proof -
  let ?req = "\<lparr>RequestFilter = [1], FromFrameNumber = 10, ToFrameNumber = 5\<rparr>"
  have h1: "(0 :: u64) < 5" by simp
  have h2: "(5 :: u64) < 10" by simp
  have h3: "unat (10 :: u64) - unat (5 :: u64) < 2 ^ 64 - 32" by simp
  have h4: "unat (10 :: u64) + 32 < 2 ^ 64" by simp
  have h5: "[5] \<noteq> getPeerID backwardsEnv" by (simp add: backwardsEnv_def exampleEnv_def)
  have h6: "unmarshalClockFramesRequest backwardsEnv exampleAny = Inr ?req"
    by (simp add: backwardsEnv_def exampleEnv_def)
  have h7: "FromFrameNumber ?req = 10" and h8: "ToFrameNumber ?req = 5" by simp_all
  have fb: "finalizedBetween backwardsEnv [1] 10 41 exampleFrame"
    by (simp add: finalizedBetween_def backwardsEnv_def exampleEnv_def exampleFrame_def)
  have h9: "finalizedBetween backwardsEnv (RequestFilter ?req) 10 (10 + 31) exampleFrame"
    using fb by simp
  have h10: "publishSucceeds backwardsEnv"
    by (simp add: publishSucceeds_def backwardsEnv_def exampleEnv_def)
  have fe: "filterE exampleEngine = [1]" by (simp add: exampleEngine_def)
  show ?thesis
    using backwards_range_served_forward [OF h1 h2 h3 h4 h5 h6 h7 h8 h9 h10,
            of exampleEngine "[]"] h5 fb h10
    by (simp add: fe)
qed

text \<open>
  C4. The claim has the base frame at height \<open>from\<close> published first. The source
  puts the base frame into the slice \<^verbatim>\<open>set\<close>, which is never sent, and publishes
  only the frames found above it: in scenario S5 (finalized 10 to 15, request 10 to 14)
  the topic \<open>filter || peer_id\<close> receives the heights 11, 12, 13, 14.
\<close>

theorem range_request_skips_base_frame: "handleClockFramesRequest finalizedEnv exampleEngine [5] [] exampleAny
  = Some (Returned None, exampleEngine\<lparr>subscriptions := [[1, 5]],
       published := [([1, 5], ClockFrameMsg (exampleFrame 11)), ([1, 5], ClockFrameMsg (exampleFrame 12)),
          ([1, 5], ClockFrameMsg (exampleFrame 13)), ([1, 5], ClockFrameMsg (exampleFrame 14))]\<rparr>)"
  by (simp add: handleClockFramesRequest_def finalizedEnv_def exampleEnv_def exampleEngine_def clampTo_def subscribe_def
      scanLoop.simps scanFrame_def scanFinalized_def scanCandidates_def publishMessage_def exampleFrame_def)


text \<open>
  C8. The claim has every candidate iterator closed on every way out of the handler.
  The two returns inside the walk skip \<^verbatim>\<open>iter.Close()\<close>: when the value of the first
  candidate cannot be read, the handler returns the error with one iterator still open.
\<close>

theorem iterator_left_open_on_value_error: "handleClockFramesRequest brokenIteratorEnv exampleEngine [5] [] exampleAny
  = Some (Returned (Some (Wrap (ErrExternal ''corrupt value'') ''handle clock frame request'')),
       exampleEngine\<lparr>subscriptions := [[1, 5]], openIterators := 1\<rparr>)"
  by (simp add: handleClockFramesRequest_def brokenIteratorEnv_def exampleEnv_def exampleEngine_def clampTo_def subscribe_def
      scanLoop.simps scanFrame_def scanFinalized_def scanCandidates_def publishMessage_def exampleFrame_def bigIntBytes_10)

end
